theory Spec2Isabelle
  imports Complex_Main "HOL-Library.Multiset"
begin

section \<open>Values, series and frames\<close>

text \<open>
  The exploratory page \<^verbatim>\<open>ziyan_eda_arizona.py\<close> works on a pandas frame with one row per
  county. A numeric cell is a float that may be missing; a missing cell is NaN. The model
  keeps NaN as a value of its own and takes every other float to be a real number, so the
  arithmetic below is exact: it is the arithmetic of the machine format as long as no
  result leaves the range of the format, rounding apart. Where the order of computed
  values depends on the arithmetic, the quartiles are computed a second time with
  overflow to infinity.
\<close>

datatype float = NaN | Fl real

text \<open>Arithmetic propagates NaN, and every ordered comparison with NaN is false.\<close>

fun fadd :: "float \<Rightarrow> float \<Rightarrow> float" where
  "fadd (Fl a) (Fl b) = Fl (a + b)"
| "fadd _ _ = NaN"

fun fsub :: "float \<Rightarrow> float \<Rightarrow> float" where
  "fsub (Fl a) (Fl b) = Fl (a - b)"
| "fsub _ _ = NaN"

fun fmul :: "float \<Rightarrow> float \<Rightarrow> float" where
  "fmul (Fl a) (Fl b) = Fl (a * b)"
| "fmul _ _ = NaN"

fun fgt :: "float \<Rightarrow> float \<Rightarrow> bool" where
  "fgt (Fl a) (Fl b) = (a > b)"
| "fgt _ _ = False"

fun fge :: "float \<Rightarrow> float \<Rightarrow> bool" where
  "fge (Fl a) (Fl b) = (a \<ge> b)"
| "fge _ _ = False"

fun flt :: "float \<Rightarrow> float \<Rightarrow> bool" where
  "flt (Fl a) (Fl b) = (a < b)"
| "flt _ _ = False"

fun fle :: "float \<Rightarrow> float \<Rightarrow> bool" where
  "fle (Fl a) (Fl b) = (a \<le> b)"
| "fle _ _ = False"

fun isnan :: "float \<Rightarrow> bool" where
  "isnan NaN = True"
| "isnan (Fl _) = False"

text \<open>
  A row carries its county and, for every numeric column name, a cell. A frame lists the
  numeric columns it has and its rows; the rows are labelled by position, \<open>0, 1, \<dots>\<close>, as
  the frame that \<^verbatim>\<open>load_eda_data\<close> returns is. A series is a column together with
  the labels of its rows.
\<close>

record row =
  county :: string
  cells :: "string \<Rightarrow> float"

record frame =
  columns :: "string list"
  rows :: "row list"

type_synonym series = "(nat \<times> float) list"

datatype error = KeyError

text \<open>\<^verbatim>\<open>df[col]\<close>: the column as a series, KeyError when the frame has no such column.\<close>

definition getitem :: "frame \<Rightarrow> string \<Rightarrow> error + series" where
  "getitem df col =
     (if col \<in> set (columns df)
      then Inr (zip [0..<length (rows df)] (map (\<lambda>r. cells r col) (rows df)))
      else Inl KeyError)"

text \<open>\<^verbatim>\<open>s.dropna()\<close>: the entries that are not NaN, in order, each with its label.\<close>

fun dropna :: "series \<Rightarrow> (nat \<times> real) list" where
  "dropna [] = []"
| "dropna ((i, NaN) # s) = dropna s"
| "dropna ((i, Fl v) # s) = (i, v) # dropna s"

text \<open>\<^verbatim>\<open>df.head(0)\<close> and \<^verbatim>\<open>df[mask]\<close>: the frame with the first \<open>n\<close> rows, and with
  the rows at which the boolean mask is true.\<close>

definition head :: "nat \<Rightarrow> frame \<Rightarrow> frame" where
  "head n df = df\<lparr>rows := take n (rows df)\<rparr>"

definition select_rows :: "frame \<Rightarrow> bool list \<Rightarrow> frame" where
  "select_rows df bs = df\<lparr>rows := map snd (filter fst (zip bs (rows df)))\<rparr>"

section \<open>Quartiles and median\<close>

text \<open>
  \<^verbatim>\<open>s.quantile(q)\<close> with the library's default method: on the sorted values
  \<open>ys\<close> of length \<open>n\<close> the virtual position is \<open>h = q * (n - 1)\<close>, and the result
  interpolates linearly between the values at \<open>\<lfloor>h\<rfloor>\<close> and at the next position. An empty
  series has quantile NaN. These definitions compute with exact numbers: they give the
  value that the library computes whenever that value is a number, as shown below for
  \<open>quantile_double\<close> and \<open>median_double\<close>, which keep the overflow of the format.
\<close>

definition lerp_at :: "real list \<Rightarrow> real \<Rightarrow> real" where
  "lerp_at ys h =
     (let lo = nat \<lfloor>h\<rfloor>;
          hi = min (lo + 1) (length ys - 1)
      in ys ! lo + (ys ! hi - ys ! lo) * (h - real lo))"

definition quantile :: "(nat \<times> real) list \<Rightarrow> real \<Rightarrow> float" where
  "quantile s q =
     (if s = [] then NaN
      else let ys = sort (map snd s)
           in Fl (lerp_at ys (q * real (length ys - 1))))"

text \<open>\<^verbatim>\<open>s.median()\<close>: the middle value of the sorted values, the mean of the two
  middle values when their number is even; NaN on an empty series.\<close>

definition median :: "(nat \<times> real) list \<Rightarrow> float" where
  "median s =
     (if s = [] then NaN
      else let ys = sort (map snd s); n = length ys
           in Fl (if odd n then ys ! (n div 2)
                  else (ys ! (n div 2 - 1) + ys ! (n div 2)) / 2))"

section \<open>Quartiles in the range of the machine format\<close>

text \<open>
  The definitions above compute with exact numbers. The library computes in 64-bit binary
  floating point, where a result whose magnitude reaches the overflow threshold
  \<open>2^1024 - 2^970\<close> becomes an infinity, and an infinity turns later results into an
  infinity or NaN. The definitions of this section keep that: a result within the range is
  taken exact (rounding within the range is not modelled, nor is the sign of zero), a
  result at or beyond the threshold is infinite. They are used where the order of the
  computed quartiles is at stake.
\<close>

datatype double = DNaN | PosInf | NegInf | Dbl real

definition ovf :: real where
  "ovf = 2 ^ 1024 - 2 ^ 970"

definition rnd :: "real \<Rightarrow> double" where
  "rnd x = (if ovf \<le> x then PosInf else if x \<le> - ovf then NegInf else Dbl x)"

fun dneg :: "double \<Rightarrow> double" where
  "dneg DNaN = DNaN"
| "dneg PosInf = NegInf"
| "dneg NegInf = PosInf"
| "dneg (Dbl a) = Dbl (- a)"

fun dadd :: "double \<Rightarrow> double \<Rightarrow> double" where
  "dadd (Dbl a) (Dbl b) = rnd (a + b)"
| "dadd DNaN _ = DNaN"
| "dadd _ DNaN = DNaN"
| "dadd PosInf NegInf = DNaN"
| "dadd NegInf PosInf = DNaN"
| "dadd PosInf _ = PosInf"
| "dadd _ PosInf = PosInf"
| "dadd NegInf _ = NegInf"
| "dadd _ NegInf = NegInf"

definition dsub :: "double \<Rightarrow> double \<Rightarrow> double" where
  "dsub a b = dadd a (dneg b)"

fun dmul :: "double \<Rightarrow> double \<Rightarrow> double" where
  "dmul (Dbl a) (Dbl b) = rnd (a * b)"
| "dmul DNaN _ = DNaN"
| "dmul _ DNaN = DNaN"
| "dmul PosInf (Dbl b) = (if b = 0 then DNaN else if 0 < b then PosInf else NegInf)"
| "dmul NegInf (Dbl b) = (if b = 0 then DNaN else if 0 < b then NegInf else PosInf)"
| "dmul (Dbl a) PosInf = (if a = 0 then DNaN else if 0 < a then PosInf else NegInf)"
| "dmul (Dbl a) NegInf = (if a = 0 then DNaN else if 0 < a then NegInf else PosInf)"
| "dmul PosInf PosInf = PosInf"
| "dmul NegInf NegInf = PosInf"
| "dmul PosInf NegInf = NegInf"
| "dmul NegInf PosInf = NegInf"

fun ddiv :: "double \<Rightarrow> double \<Rightarrow> double" where
  "ddiv (Dbl a) (Dbl b) =
     (if b = 0 then (if a = 0 then DNaN else if 0 < a then PosInf else NegInf)
      else rnd (a / b))"
| "ddiv DNaN _ = DNaN"
| "ddiv _ DNaN = DNaN"
| "ddiv (Dbl a) _ = Dbl 0"
| "ddiv PosInf (Dbl b) = (if 0 \<le> b then PosInf else NegInf)"
| "ddiv NegInf (Dbl b) = (if 0 \<le> b then NegInf else PosInf)"
| "ddiv _ _ = DNaN"

text \<open>The order of two computed values; a comparison with NaN is false.\<close>

fun dle :: "double \<Rightarrow> double \<Rightarrow> bool" where
  "dle DNaN _ = False"
| "dle _ DNaN = False"
| "dle NegInf _ = True"
| "dle _ PosInf = True"
| "dle (Dbl a) (Dbl b) = (a \<le> b)"
| "dle _ _ = False"

text \<open>
  The interpolation of the library's quantile between the neighbours \<open>a\<close> and \<open>b\<close> at the
  fraction \<open>t\<close>: \<open>a + (b - a) * t\<close>, and \<open>b - (b - a) * (1 - t)\<close> from \<open>t = 0.5\<close> on.
\<close>

definition lerp :: "double \<Rightarrow> double \<Rightarrow> real \<Rightarrow> double" where
  "lerp a b t =
     (let diff_b_a = dsub b a
      in if 0.5 \<le> t then dsub b (dmul diff_b_a (Dbl (1 - t)))
         else dadd a (dmul diff_b_a (Dbl t)))"

definition quantile_double :: "(nat \<times> real) list \<Rightarrow> real \<Rightarrow> double" where
  "quantile_double s q =
     (if s = [] then DNaN
      else let ys = sort (map snd s);
               h = q * real (length ys - 1);
               lo = nat \<lfloor>h\<rfloor>;
               hi = min (lo + 1) (length ys - 1)
           in lerp (Dbl (ys ! lo)) (Dbl (ys ! hi)) (h - real lo))"

definition median_double :: "(nat \<times> real) list \<Rightarrow> double" where
  "median_double s =
     (if s = [] then DNaN
      else let ys = sort (map snd s); n = length ys
           in if odd n then Dbl (ys ! (n div 2))
              else ddiv (dadd (Dbl (ys ! (n div 2 - 1))) (Dbl (ys ! (n div 2)))) (Dbl 2))"

section \<open>The outlier detector\<close>

text \<open>
  \<^verbatim>\<open>iqr_outliers(df, col)\<close> returns the cutoff and the frame of the outlier counties.
  The mask \<^verbatim>\<open>df[col] > cutoff\<close> is taken over the whole column, missing cells
  included.
\<close>

definition iqr_outliers :: "frame \<Rightarrow> string \<Rightarrow> error + (float \<times> frame)" where
  "iqr_outliers df col =
     (case getitem df col of
        Inl e \<Rightarrow> Inl e
      | Inr c \<Rightarrow>
          (let s = dropna c in
           if s = [] then Inr (NaN, head 0 df)
           else
             let q1 = quantile s 0.25;
                 q3 = quantile s 0.75;
                 cutoff = fadd q3 (fmul (Fl 1.5) (fsub q3 q1));
                 outliers = select_rows df (map (\<lambda>(i, v). fgt v cutoff) c)
             in Inr (cutoff, outliers)))"

section \<open>The variable catalog\<close>

text \<open>The module constants, as association lists in the order of the source.\<close>

definition EDA_VARS :: "string list" where
  "EDA_VARS =
     [''hospitals_per_10k'', ''beds_per_10k'', ''num_hospitals'', ''population_total'',
      ''total_capacity'', ''mp_pov150_mean'', ''mp_uninsur_mean'', ''mp_noveh_mean'',
      ''e_heat_risk_mean'', ''max_temp_2022'', ''e_daypop_mean'']"

definition THEME_VARS :: "(string \<times> string list) list" where
  "THEME_VARS =
     [(''Capacity and access'',
         [''hospitals_per_10k'', ''beds_per_10k'', ''num_hospitals'', ''total_capacity'']),
      (''Population and daytime presence'',
         [''population_total'', ''e_daypop_mean'']),
      (''Social barriers'',
         [''mp_pov150_mean'', ''mp_uninsur_mean'', ''mp_noveh_mean'']),
      (''Heat and climate'',
         [''e_heat_risk_mean'', ''max_temp_2022''])]"

definition VAR_LABELS :: "(string \<times> string) list" where
  "VAR_LABELS =
     [(''hospitals_per_10k'', ''Hospitals per 10k residents''),
      (''beds_per_10k'', ''Beds per 10k residents''),
      (''num_hospitals'', ''Number of hospitals''),
      (''population_total'', ''Total population''),
      (''total_capacity'', ''Total bed capacity''),
      (''mp_pov150_mean'', ''Poverty (relative to average)''),
      (''mp_uninsur_mean'', ''Uninsured (relative to average)''),
      (''mp_noveh_mean'', ''No-vehicle households (relative to average)''),
      (''e_heat_risk_mean'', ''Heat risk index''),
      (''max_temp_2022'', ''Maximum temperature (2022)''),
      (''e_daypop_mean'', ''Daytime population''),
      (''is_medical_desert'', ''Medical desert flag'')]"

text \<open>\<^verbatim>\<open>VAR_LABELS.get(var, var)\<close>: the label, or the name itself when the catalog has none.\<close>

definition var_label :: "string \<Rightarrow> string" where
  "var_label var = (case map_of VAR_LABELS var of Some l \<Rightarrow> l | None \<Rightarrow> var)"

text \<open>The themes whose list holds a name, in the order of \<^verbatim>\<open>THEME_VARS\<close>.\<close>

definition themes_of :: "string \<Rightarrow> string list" where
  "themes_of var = map fst (filter (\<lambda>(theme, vars_list). var \<in> set vars_list) THEME_VARS)"

text \<open>The twelve names that the catalog recognises: the keys of \<^verbatim>\<open>VAR_LABELS\<close>.\<close>

definition canonical_names :: "string list" where
  "canonical_names = map fst VAR_LABELS"

section \<open>The narrative texts\<close>

text \<open>
  \<^verbatim>\<open>interpretation_univariate\<close> picks three texts by the variable name, each with
  an \<^verbatim>\<open>if\<close>/\<^verbatim>\<open>elif\<close> chain that ends in a generic \<^verbatim>\<open>else\<close>: what the variable
  measures, why it matters, and how a model could use it.
\<close>

definition var_explanation :: "string \<Rightarrow> string" where
  "var_explanation var =
     (if var = ''hospitals_per_10k'' then
        ''Number of hospitals per 10,000 residents in each county. '' @
        ''Higher values mean more facilities relative to population.''
      else if var = ''beds_per_10k'' then
        ''Number of hospital beds per 10,000 residents. '' @
        ''Higher values indicate greater inpatient capacity per person.''
      else if var = ''num_hospitals'' then ''Total count of hospitals in the county.''
      else if var = ''population_total'' then ''Estimated resident population in the county.''
      else if var = ''total_capacity'' then
        ''Total number of hospital beds across all hospitals in the county.''
      else if var \<in> set [''mp_pov150_mean'', ''mp_uninsur_mean'', ''mp_noveh_mean''] then
        ''These variables are centred around zero and represent relative vulnerability. '' @
        ''Values above 0 mean the county has more of this condition than the reference average; '' @
        ''values below 0 mean less than average.''
      else if var = ''e_heat_risk_mean'' then
        ''Index summarising average heat risk; higher values mean greater heat exposure.''
      else if var = ''max_temp_2022'' then
        ''Maximum recorded temperature in 2022 for the county.''
      else if var = ''e_daypop_mean'' then
        ''Estimated daytime population, including residents plus commuters and visitors present during the day.''
      else ''County-level summary for the metric shown on the chart.'')"

definition why_text :: "string \<Rightarrow> string" where
  "why_text var =
     (if var = ''hospitals_per_10k'' then
        ''Low values indicate potential gaps in facility access. '' @
        ''During extreme heat, residents may face longer travel times and delays before reaching care.''
      else if var = ''beds_per_10k'' then
        ''Low bed counts per resident suggest limited capacity to admit patients. '' @
        ''Counties with both high heat risk and low beds per 10k may overload quickly.''
      else if var = ''num_hospitals'' then
        ''Counties with very few hospitals have little redundancy. '' @
        ''If one facility is unavailable, options for residents are limited.''
      else if var = ''population_total'' then
        ''High-population counties require more infrastructure. '' @
        ''If population is high but hospital access metrics are low, the system may be strained.''
      else if var = ''total_capacity'' then
        ''Total bed capacity describes the size of the system. '' @
        ''Low-capacity counties may struggle to manage larger numbers of heat-related admissions.''
      else if var = ''mp_pov150_mean'' then
        ''Positive values indicate more residents near or below the poverty line than average. '' @
        ''Financial constraints can limit access to cooling, transport and timely care.''
      else if var = ''mp_uninsur_mean'' then
        ''Positive values indicate more uninsured residents than average. '' @
        ''Uninsured individuals often delay care, which can worsen outcomes during heat events.''
      else if var = ''mp_noveh_mean'' then
        ''Positive values indicate more households without vehicles than average. '' @
        ''These residents may find it harder to reach hospitals when they need urgent care.''
      else if var = ''e_heat_risk_mean'' then
        ''Higher scores indicate greater exposure to dangerous heat. '' @
        ''Counties combining high heat risk with low capacity or high social barriers are of particular concern.''
      else if var = ''max_temp_2022'' then
        ''High maximum temperatures increase physiological stress and can trigger more heat-related illness.''
      else if var = ''e_daypop_mean'' then
        ''High daytime population means demand for emergency services may be higher than resident population alone suggests.''
      else
        ''This metric captures one aspect of county-level risk or capacity that interacts with heat conditions.'')"

definition nl :: string where
  "nl = [CHR 0x0A]"

definition model_text :: "string \<Rightarrow> string" where
  "model_text var =
     (if var \<in> set [''hospitals_per_10k'', ''beds_per_10k'', ''num_hospitals'', ''total_capacity''] then
        ''- These variables summarise health system capacity.'' @ nl @
        ''- In a model predicting heat-related hospitalisations by county, '' @
        ''they help explain which counties are more likely to experience strain when demand increases.''
      else if var \<in> set [''mp_pov150_mean'', ''mp_uninsur_mean'', ''mp_noveh_mean''] then
        ''- These variables represent social and economic barriers to care.'' @ nl @
        ''- Using them as features lets the model capture how poverty, insurance and transport '' @
        ''affect outcomes, beyond physical capacity alone.''
      else if var \<in> set [''e_heat_risk_mean'', ''max_temp_2022''] then
        ''- These are exposure variables that quantify how extreme the heat is.'' @ nl @
        ''- Combined with capacity and vulnerability variables, they help identify counties where high exposure '' @
        ''and low access overlap.''
      else if var \<in> set [''population_total'', ''e_daypop_mean''] then
        ''- These variables describe the size of the population at risk.'' @ nl @
        ''- They can be used as predictors and also for constructing outcome rates '' @
        ''(for example, hospitalisations per 10,000 residents).''
      else
        ''- This variable can be included as a county-level feature after appropriate scaling or standardisation.'')"

section \<open>The summary of one variable\<close>

text \<open>\<^verbatim>\<open>s.min()\<close> and \<^verbatim>\<open>s.max()\<close>; NaN on an empty series.\<close>

definition smin :: "(nat \<times> real) list \<Rightarrow> float" where
  "smin s = (case map snd s of [] \<Rightarrow> NaN | x # xs \<Rightarrow> Fl (fold min xs x))"

definition smax :: "(nat \<times> real) list \<Rightarrow> float" where
  "smax s = (case map snd s of [] \<Rightarrow> NaN | x # xs \<Rightarrow> Fl (fold max xs x))"

text \<open>Float division. A zero divisor gives an infinity or NaN in the source; the model has
  no infinity and answers NaN. The only division of the page is guarded by \<open>vmin > 0\<close>.\<close>

fun fdiv :: "float \<Rightarrow> float \<Rightarrow> float" where
  "fdiv (Fl a) (Fl b) = (if b = 0 then NaN else Fl (a / b))"
| "fdiv _ _ = NaN"

text \<open>Lines 186 to 190: the ratio of the highest to the lowest value, \<^verbatim>\<open>None\<close> unless
  it is informative.\<close>

definition max_min_ratio :: "float \<Rightarrow> float \<Rightarrow> float option" where
  "max_min_ratio vmin vmax =
     (if fgt vmin (Fl 0) then
        (let r = fdiv vmax vmin in
         if flt (Fl 1) r \<and> fle r (Fl 10) then Some r else None)
      else None)"

text \<open>\<^verbatim>\<open>s.sort_values()\<close>: ascending by value. The library's default sort need not keep
  equal values in their order; the model sorts stably, and no theorem below depends on the
  order of equal values.\<close>

definition sort_values :: "(nat \<times> real) list \<Rightarrow> (nat \<times> real) list" where
  "sort_values s = sort_key snd s"

text \<open>\<^verbatim>\<open>df.loc[labels, ["county", var]]\<close>: the rows with these labels, in this order,
  each as its county and its cell; KeyError when the column or a label is not in the frame.\<close>

definition loc :: "frame \<Rightarrow> nat list \<Rightarrow> string \<Rightarrow> error + (string \<times> float) list" where
  "loc df labels var =
     (if var \<in> set (columns df) \<and> list_all (\<lambda>i. i < length (rows df)) labels
      then Inr (map (\<lambda>i. (county (rows df ! i), cells (rows df ! i) var)) labels)
      else Inl KeyError)"

text \<open>\<^verbatim>\<open>t.tail(n)\<close>: the last \<open>n\<close> rows.\<close>

definition tail :: "nat \<Rightarrow> 'a list \<Rightarrow> 'a list" where
  "tail n xs = drop (length xs - n) xs"

record summary =
  sm_label :: string
  sm_med :: float
  sm_q1 :: float
  sm_q3 :: float
  sm_vmin :: float
  sm_vmax :: float
  sm_ratio :: "float option"
  sm_bottom3 :: "(string \<times> float) list"
  sm_top3 :: "(string \<times> float) list"

text \<open>
  Lines 174 to 194 of \<^verbatim>\<open>interpretation_univariate(var, series, df)\<close>: the numbers the
  texts are built from. \<open>None\<close> stands for the early return on a series with no value.
\<close>

definition summarize :: "string \<Rightarrow> series \<Rightarrow> frame \<Rightarrow> error + summary option" where
  "summarize var series df =
     (let s = dropna series in
      if s = [] then Inr None
      else
        case loc df (map fst (sort_values s)) var of
          Inl e \<Rightarrow> Inl e
        | Inr sorted_df \<Rightarrow>
            Inr (Some \<lparr>sm_label = var_label var,
                       sm_med = median s,
                       sm_q1 = quantile s 0.25,
                       sm_q3 = quantile s 0.75,
                       sm_vmin = smin s,
                       sm_vmax = smax s,
                       sm_ratio = max_min_ratio (smin s) (smax s),
                       sm_bottom3 = take 3 sorted_df,
                       sm_top3 = tail 3 sorted_df\<rparr>))"

section \<open>What the page shows\<close>

text \<open>
  A displayed text is a list of pieces: literal text, and floats formatted with one or two
  decimals (\<^verbatim>\<open>{x:,.1f}\<close>, \<^verbatim>\<open>{x:,.2f}\<close>). The page is the list of the elements it
  writes, in order.
\<close>

datatype piece = Txt string | Fmt1 float | Fmt2 float

datatype ui =
    Write "piece list"
  | Markdown "piece list"
  | Table string string "(string \<times> float) list"
  | Dataframe string string "(string \<times> float) list"
  | Chart "(string \<times> float \<times> string) list"

fun join :: "piece list \<Rightarrow> piece list list \<Rightarrow> piece list" where
  "join sep [] = []"
| "join sep [b] = b"
| "join sep (b # bs) = b @ sep @ join sep bs"

definition callout :: string where
  "callout =
     nl @ ''<div class='' @ [CHR 0x22] @ ''insight-callout'' @ [CHR 0x22] @ ''>'' @ nl @
     ''The bar chart above is a ranking: counties on the left have the highest values on this metric,'' @ nl @
     ''and counties on the right have the lowest. This makes it easier to see which counties consistently'' @ nl @
     ''sit at the top or bottom.'' @ nl @
     ''</div>'' @ nl"

definition bullets :: "summary \<Rightarrow> piece list list" where
  "bullets sm =
     [[Txt ''- A typical county is around **'', Fmt1 (sm_med sm), Txt '' '', Txt (sm_label sm), Txt ''**.''],
      [Txt ''- Half of counties fall between **'', Fmt1 (sm_q1 sm), Txt ''** and **'', Fmt1 (sm_q3 sm), Txt ''**.''],
      [Txt ''- The lowest observed value is **'', Fmt1 (sm_vmin sm), Txt ''**, and the highest is **'',
       Fmt1 (sm_vmax sm), Txt ''**.'']]
     @ (case sm_ratio sm of
          None \<Rightarrow> []
        | Some r \<Rightarrow>
            [[Txt ''- The highest county is about **'', Fmt1 r, Txt '' times** the lowest on this metric.'']])"

text \<open>Lines 196 to 364: the page elements for a variable and its summary.\<close>

definition narrate :: "string \<Rightarrow> summary \<Rightarrow> ui list" where
  "narrate var sm =
     [Markdown [Txt ''#### What this variable measures''],
      Write [Txt (var_explanation var)],
      Markdown [Txt ''#### How counties compare on this metric''],
      Write (join [Txt nl] (bullets sm)),
      Markdown [Txt callout],
      Markdown [Txt ''**Counties with the highest values (top 3)**''],
      Table ''County'' (sm_label sm) (sm_top3 sm),
      Markdown [Txt ''**Counties with the lowest values (bottom 3)**''],
      Table ''County'' (sm_label sm) (sm_bottom3 sm),
      Markdown [Txt ''#### Why this is relevant for heat and medical access''],
      Write [Txt (why_text var)],
      Markdown [Txt ''#### Possible use in a machine-learning model''],
      Write [Txt (model_text var)]]"

definition interpretation_univariate :: "string \<Rightarrow> series \<Rightarrow> frame \<Rightarrow> error + ui list" where
  "interpretation_univariate var series df =
     (case summarize var series df of
        Inl e \<Rightarrow> Inl e
      | Inr None \<Rightarrow> Inr [Write [Txt ''No data available for this variable.'']]
      | Inr (Some sm) \<Rightarrow> Inr (narrate var sm))"

section \<open>The ranking chart and the outlier section\<close>

text \<open>
  The rest is from \<^verbatim>\<open>render_exploratory_eda\<close>, after the user has chosen the variable.
  \<^verbatim>\<open>bucket\<close> is the local function of lines 434 to 439; the quartiles it closes over
  are parameters here.
\<close>

definition bucket :: "float \<Rightarrow> float \<Rightarrow> float \<Rightarrow> string" where
  "bucket q1 q3 x =
     (if fge x q3 then ''Top 25%''
      else if fle x q1 then ''Bottom 25%''
      else ''Middle'')"

text \<open>\<^verbatim>\<open>df[["county", var]].dropna()\<close>: county and value of the rows whose cell is not
  NaN.\<close>

fun county_values :: "row list \<Rightarrow> string \<Rightarrow> (string \<times> real) list" where
  "county_values [] var = []"
| "county_values (r # rs) var =
     (case cells r var of
        NaN \<Rightarrow> county_values rs var
      | Fl v \<Rightarrow> (county r, v) # county_values rs var)"

text \<open>\<^verbatim>\<open>sort_values(by=var, ascending=False)\<close> on rows without NaN.\<close>

definition sort_desc :: "(string \<times> real) list \<Rightarrow> (string \<times> real) list" where
  "sort_desc t = sort_key (\<lambda>(c, v). - v) t"

text \<open>Lines 413 to 441: the rows of the ranking chart with their group, \<open>None\<close> for the
  early return when the column has no value.\<close>

definition df_bar :: "frame \<Rightarrow> string \<Rightarrow> error + (string \<times> float \<times> string) list option" where
  "df_bar df var =
     (case getitem df var of
        Inl e \<Rightarrow> Inl e
      | Inr s \<Rightarrow>
          (let s_non = dropna s in
           if s_non = [] then Inr None
           else
             let q1 = quantile s_non 0.25;
                 q3 = quantile s_non 0.75
             in Inr (Some (map (\<lambda>(c, v). (c, Fl v, bucket q1 q3 (Fl v)))
                             (sort_desc (county_values (rows df) var))))))"

text \<open>Lines 478 to 493: the outlier section. The cutoff is printed only when the outlier
  frame has a row and the cutoff is a number. The displayed frame is sorted descending by
  value; an outlier row never has a missing cell, so the rows with a value are all of its
  rows.\<close>

definition outlier_section :: "frame \<Rightarrow> string \<Rightarrow> error + ui list" where
  "outlier_section df var =
     (case iqr_outliers df var of
        Inl e \<Rightarrow> Inl e
      | Inr (cutoff, outliers) \<Rightarrow>
          Inr (Markdown [Txt ''#### Counties that are unusually high (IQR rule)''] #
               (if rows outliers = [] \<or> isnan cutoff then
                  [Write [Txt ''No counties appear as strong high outliers on this metric.'']]
                else
                  [Write
                     [Txt (''We use something called the interquartile range (IQR) to highlight counties that are much higher than a typical county. '' @ nl @
                           ''        This helps us see which places are not just high but unusually high on this metric.  '' @ nl @
                           ''        Any county above approximately **''),
                      Fmt2 cutoff, Txt '' '', Txt (var_label var),
                      Txt ''** is higher than would be expected from a typical spread.''],
                   Dataframe ''County'' (var_label var)
                     (map (\<lambda>(c, v). (c, Fl v))
                        (sort_desc (county_values (rows outliers) var)))])))"

text \<open>Whether a page element prints NaN.\<close>

fun piece_nan :: "piece \<Rightarrow> bool" where
  "piece_nan (Txt _) = False"
| "piece_nan (Fmt1 x) = isnan x"
| "piece_nan (Fmt2 x) = isnan x"

fun text_nan :: "ui \<Rightarrow> bool" where
  "text_nan (Write ps) = list_ex piece_nan ps"
| "text_nan (Markdown ps) = list_ex piece_nan ps"
| "text_nan _ = False"

section \<open>Tables of one metric\<close>

text \<open>
  The statements below speak of a table of counties and values. As a frame such a table
  has the single column \<open>value\<close>; \<open>Fl v\<close> is a value and \<open>NaN\<close> an absent one.
\<close>

definition metric_row :: "string \<Rightarrow> float \<Rightarrow> row" where
  "metric_row c v = \<lparr>county = c, cells = (\<lambda>name. if name = ''value'' then v else NaN)\<rparr>"

definition metric_table :: "(string \<times> float) list \<Rightarrow> frame" where
  "metric_table t = \<lparr>columns = [''value''], rows = map (\<lambda>(c, v). metric_row c v) t\<rparr>"

text \<open>A frame with one county and the single column \<open>foo\<close>, a name that the
  catalog does not know.\<close>

definition foo_table :: frame where
  "foo_table =
     \<lparr>columns = [''foo''],
      rows = [\<lparr>county = ''A'', cells = (\<lambda>name. if name = ''foo'' then Fl 7 else NaN)\<rparr>]\<rparr>"

text \<open>The values of a column that are not missing, in row order.\<close>

definition column_values :: "frame \<Rightarrow> string \<Rightarrow> real list" where
  "column_values df col = map snd (county_values (rows df) col)"

text \<open>The quantile of a list of numbers by linear interpolation between closest ranks, and
  the high cutoff \<open>Q3 + 1.5 * (Q3 - Q1)\<close>.\<close>

definition quartile :: "real list \<Rightarrow> real \<Rightarrow> real" where
  "quartile vals q = lerp_at (sort vals) (q * real (length vals - 1))"

definition tukey_cutoff :: "real list \<Rightarrow> real" where
  "tukey_cutoff vals = quartile vals 0.75 + 1.5 * (quartile vals 0.75 - quartile vals 0.25)"

text \<open>A row lies above a number when its cell is a value strictly greater than it.\<close>

definition above :: "real \<Rightarrow> string \<Rightarrow> row \<Rightarrow> bool" where
  "above c col r = (case cells r col of NaN \<Rightarrow> False | Fl v \<Rightarrow> c < v)"

section \<open>The order of the exact quartiles\<close>

text \<open>The interpolated value lies between the two values it interpolates, and grows with
  the position; the median is the interpolated value at the middle position.\<close>

lemma lerp_at_bounds:
  assumes srt: "sorted ys" and h0: "0 \<le> h" and hn: "h \<le> real (length ys - 1)" and ne: "ys \<noteq> []"
  shows "ys ! nat \<lfloor>h\<rfloor> \<le> lerp_at ys h"
    and "lerp_at ys h \<le> ys ! min (nat \<lfloor>h\<rfloor> + 1) (length ys - 1)"
proof -
  define lo where "lo = nat \<lfloor>h\<rfloor>"
  define hi where "hi = min (lo + 1) (length ys - 1)"
  have lo_le: "real lo \<le> h" using h0 by (simp add: lo_def)
  have lo_gt: "h < real lo + 1" using h0 unfolding lo_def by linarith
  have lo_n: "lo \<le> length ys - 1" using hn lo_le by linarith
  have hi_n: "hi < length ys" using ne lo_n by (cases ys) (simp_all add: hi_def)
  have lo_hi: "lo \<le> hi" using lo_n by (simp add: hi_def)
  have step: "ys ! lo \<le> ys ! hi" using srt lo_hi hi_n by (simp add: sorted_nth_mono)
  have eq: "lerp_at ys h = ys ! lo + (ys ! hi - ys ! lo) * (h - real lo)"
    by (simp add: lerp_at_def lo_def hi_def Let_def)
  have g0: "0 \<le> h - real lo" and g1: "h - real lo \<le> 1" using lo_le lo_gt by simp_all
  have "0 \<le> (ys ! hi - ys ! lo) * (h - real lo)" using step g0 by simp
  then show "ys ! nat \<lfloor>h\<rfloor> \<le> lerp_at ys h" using eq by (simp add: lo_def)
  have "(ys ! hi - ys ! lo) * (h - real lo) \<le> (ys ! hi - ys ! lo) * 1"
    using step g1 by (intro mult_left_mono) simp_all
  then show "lerp_at ys h \<le> ys ! min (nat \<lfloor>h\<rfloor> + 1) (length ys - 1)"
    using eq by (simp add: lo_def hi_def)
qed

lemma lerp_at_mono:
  assumes srt: "sorted ys" and h0: "0 \<le> h" and hh: "h \<le> h'"
    and hn: "h' \<le> real (length ys - 1)" and ne: "ys \<noteq> []"
  shows "lerp_at ys h \<le> lerp_at ys h'"
proof -
  define lo where "lo = nat \<lfloor>h\<rfloor>"
  define lo' where "lo' = nat \<lfloor>h'\<rfloor>"
  have lolo: "lo \<le> lo'" using hh by (simp add: lo_def lo'_def nat_mono floor_mono)
  have lo'_le: "real lo' \<le> h'" using h0 hh by (simp add: lo'_def)
  have lo'_n: "lo' \<le> length ys - 1" using hn lo'_le by linarith
  have lo'_lt: "lo' < length ys" using lo'_n ne by (cases ys) simp_all
  show ?thesis
  proof (cases "lo = lo'")
    case True
    define hi where "hi = min (lo + 1) (length ys - 1)"
    have "hi \<le> length ys - 1" by (simp add: hi_def)
    then have hi_n: "hi < length ys" using lo'_lt by linarith
    have "lo \<le> hi" using lo'_n True by (simp add: hi_def)
    then have step: "ys ! lo \<le> ys ! hi" using srt hi_n by (simp add: sorted_nth_mono)
    have e1: "lerp_at ys h = ys ! lo + (ys ! hi - ys ! lo) * (h - real lo)"
      by (simp add: lerp_at_def lo_def hi_def Let_def)
    have e2: "lerp_at ys h' = ys ! lo + (ys ! hi - ys ! lo) * (h' - real lo)"
      using True by (simp add: lerp_at_def lo'_def lo_def hi_def Let_def)
    have "(ys ! hi - ys ! lo) * (h - real lo) \<le> (ys ! hi - ys ! lo) * (h' - real lo)"
      using step hh by (intro mult_left_mono) simp_all
    then show ?thesis using e1 e2 by simp
  next
    case False
    then have lt: "lo + 1 \<le> lo'" using lolo by simp
    then have m: "min (lo + 1) (length ys - 1) = lo + 1" using lo'_n by simp
    have hn1: "h \<le> real (length ys - 1)" using hh hn by simp
    have "lerp_at ys h \<le> ys ! (lo + 1)"
      using lerp_at_bounds(2)[OF srt h0 hn1 ne] m by (simp add: lo_def)
    also have "\<dots> \<le> ys ! lo'" using srt lt lo'_lt by (simp add: sorted_nth_mono)
    also have "\<dots> \<le> lerp_at ys h'"
      using lerp_at_bounds(1)[OF srt _ hn ne] h0 hh by (simp add: lo'_def)
    finally show ?thesis .
  qed
qed

lemma median_as_lerp:
  assumes ne: "ys \<noteq> []"
  shows "(if odd (length ys) then ys ! (length ys div 2)
          else (ys ! (length ys div 2 - 1) + ys ! (length ys div 2)) / 2)
         = lerp_at ys (0.5 * real (length ys - 1))"
proof (cases "odd (length ys)")
  case True
  then obtain k where k: "length ys = 2 * k + 1" by (auto elim: oddE)
  have h: "0.5 * real (length ys - 1) = real k" by (simp add: k)
  show ?thesis using True by (simp add: h lerp_at_def k)
next
  case False
  then obtain k where k0: "length ys = 2 * k" by (auto elim: evenE)
  with ne obtain j where j: "k = Suc j" by (cases k) auto
  have len: "length ys = 2 * j + 2" using k0 j by simp
  have lo: "nat \<lfloor>0.5 * real (length ys - 1)\<rfloor> = j"
  proof -
    have "\<lfloor>0.5 * real (length ys - 1)\<rfloor> = int j"
      by (simp add: floor_eq_iff len)
    then show ?thesis by simp
  qed
  have "real (length ys - 1) = 2 * real j + 1" by (simp add: len)
  then have g: "0.5 * real (length ys - 1) - real j = 1 / 2" by linarith
  have hi: "min (j + 1) (length ys - 1) = j + 1" by (simp add: len)
  have d: "length ys div 2 = j + 1" by (simp add: len)
  have "lerp_at ys (0.5 * real (length ys - 1)) = ys ! j + (ys ! (j + 1) - ys ! j) * (1 / 2)"
    unfolding lerp_at_def Let_def lo hi g ..
  also have "\<dots> = (ys ! j + ys ! (j + 1)) / 2" by (simp add: field_simps)
  finally show ?thesis using False by (simp add: d)
qed

text \<open>With exact numbers the three quartiles of a non-empty sequence are ordered.\<close>

lemma exact_quartiles_ordered:
  assumes "s \<noteq> []"
  shows "\<exists>a m b. quantile s 0.25 = Fl a \<and> median s = Fl m \<and> quantile s 0.75 = Fl b
           \<and> a \<le> m \<and> m \<le> b"
proof -
  define ys where "ys = sort (map snd s)"
  have "length ys = length s" by (simp add: ys_def)
  then have ne: "ys \<noteq> []" using assms by auto
  have srt: "sorted ys" by (simp add: ys_def)
  define n where "n = real (length ys - 1)"
  have n0: "0 \<le> n" by (simp add: n_def)
  have m: "median s = Fl (lerp_at ys (0.5 * n))"
  proof -
    have "median s = Fl (if odd (length ys) then ys ! (length ys div 2)
                         else (ys ! (length ys div 2 - 1) + ys ! (length ys div 2)) / 2)"
      using assms by (simp add: median_def ys_def Let_def)
    then show ?thesis by (simp only: median_as_lerp[OF ne] n_def)
  qed
  have a: "quantile s 0.25 = Fl (lerp_at ys (0.25 * n))"
    using assms by (simp add: quantile_def ys_def n_def Let_def)
  have b: "quantile s 0.75 = Fl (lerp_at ys (0.75 * n))"
    using assms by (simp add: quantile_def ys_def n_def Let_def)
  have "lerp_at ys (0.25 * n) \<le> lerp_at ys (0.5 * n)"
    using n0 by (intro lerp_at_mono[OF srt _ _ _ ne]) (simp_all add: n_def)
  moreover have "lerp_at ys (0.5 * n) \<le> lerp_at ys (0.75 * n)"
    using n0 by (intro lerp_at_mono[OF srt _ _ _ ne]) (simp_all add: n_def)
  ultimately show ?thesis using a m b by simp
qed

section \<open>The order of the computed quartiles\<close>

text \<open>
  A computed value that is a number is the exact value: once an operation overflows, the
  result stays an infinity or NaN. Values below half the overflow threshold in magnitude
  never overflow in the quartiles.
\<close>

lemma ovf_pos: "0 < ovf"
  by (simp add: ovf_def)

lemma rnd_in_range: "- ovf < x \<Longrightarrow> x < ovf \<Longrightarrow> rnd x = Dbl x"
  by (simp add: rnd_def)

lemma rnd_Dbl: "rnd x = Dbl r \<Longrightarrow> r = x"
  by (simp add: rnd_def split: if_splits)

lemma dadd_Dbl: "dadd x y = Dbl r \<Longrightarrow> \<exists>a b. x = Dbl a \<and> y = Dbl b \<and> r = a + b"
  by (cases x; cases y) (auto dest: rnd_Dbl)

lemma dsub_Dbl: "dsub x y = Dbl r \<Longrightarrow> \<exists>a b. x = Dbl a \<and> y = Dbl b \<and> r = a - b"
  unfolding dsub_def by (cases x; cases y) (auto dest: rnd_Dbl)

lemma dmul_Dbl: "dmul x y = Dbl r \<Longrightarrow> \<exists>a b. x = Dbl a \<and> y = Dbl b \<and> r = a * b"
  by (cases x; cases y) (auto dest: rnd_Dbl split: if_splits)

lemma ddiv_two_Dbl: "ddiv x (Dbl 2) = Dbl r \<Longrightarrow> \<exists>a. x = Dbl a \<and> r = a / 2"
  by (cases x) (auto dest: rnd_Dbl split: if_splits)

lemma lerp_Dbl:
  assumes "lerp (Dbl a) (Dbl b) t = Dbl r"
  shows "r = a + (b - a) * t"
proof (cases "0.5 \<le> t")
  case True
  with assms have "dsub (Dbl b) (dmul (dsub (Dbl b) (Dbl a)) (Dbl (1 - t))) = Dbl r"
    by (simp add: lerp_def Let_def)
  then obtain m where m: "dmul (dsub (Dbl b) (Dbl a)) (Dbl (1 - t)) = Dbl m" and r: "r = b - m"
    using dsub_Dbl by blast
  from m obtain d where d: "dsub (Dbl b) (Dbl a) = Dbl d" and m': "m = d * (1 - t)"
    using dmul_Dbl by blast
  from d have "d = b - a" using dsub_Dbl by blast
  then have "r = b - (b - a) * (1 - t)" using r m' by simp
  also have "\<dots> = a + (b - a) * t" by (simp add: algebra_simps)
  finally show ?thesis .
next
  case False
  with assms have "dadd (Dbl a) (dmul (dsub (Dbl b) (Dbl a)) (Dbl t)) = Dbl r"
    by (simp add: lerp_def Let_def)
  then obtain m where m: "dmul (dsub (Dbl b) (Dbl a)) (Dbl t) = Dbl m" and r: "r = a + m"
    using dadd_Dbl by blast
  from m obtain d where d: "dsub (Dbl b) (Dbl a) = Dbl d" and m': "m = d * t"
    using dmul_Dbl by blast
  from d have "d = b - a" using dsub_Dbl by blast
  then show ?thesis using r m' by simp
qed

lemma quantile_double_exact:
  assumes "quantile_double s q = Dbl r"
  shows "quantile s q = Fl r"
proof -
  have ne: "s \<noteq> []" using assms by (auto simp: quantile_double_def)
  define ys where "ys = sort (map snd s)"
  define h where "h = q * real (length ys - 1)"
  define lo where "lo = nat \<lfloor>h\<rfloor>"
  define hi where "hi = min (lo + 1) (length ys - 1)"
  have "lerp (Dbl (ys ! lo)) (Dbl (ys ! hi)) (h - real lo) = Dbl r"
    using assms ne unfolding quantile_double_def Let_def ys_def[symmetric] h_def[symmetric]
      lo_def[symmetric] hi_def[symmetric] by simp
  then have "r = ys ! lo + (ys ! hi - ys ! lo) * (h - real lo)" by (rule lerp_Dbl)
  then have "r = lerp_at ys h" by (simp add: lerp_at_def Let_def lo_def hi_def)
  then show ?thesis
    using ne unfolding quantile_def Let_def ys_def[symmetric] h_def[symmetric] by simp
qed

lemma median_double_exact:
  assumes "median_double s = Dbl m"
  shows "median s = Fl m"
proof -
  have ne: "s \<noteq> []" using assms by (auto simp: median_double_def)
  define ys where "ys = sort (map snd s)"
  define n where "n = length ys"
  show ?thesis
  proof (cases "odd n")
    case True
    then have "Dbl (ys ! (n div 2)) = Dbl m"
      using assms ne unfolding median_double_def Let_def ys_def[symmetric] n_def[symmetric]
      by simp
    then show ?thesis
      using ne True unfolding median_def Let_def ys_def[symmetric] n_def[symmetric] by simp
  next
    case False
    then have "ddiv (dadd (Dbl (ys ! (n div 2 - 1))) (Dbl (ys ! (n div 2)))) (Dbl 2) = Dbl m"
      using assms ne unfolding median_double_def Let_def ys_def[symmetric] n_def[symmetric]
      by simp
    then obtain k where k: "dadd (Dbl (ys ! (n div 2 - 1))) (Dbl (ys ! (n div 2))) = Dbl k"
      and m: "m = k / 2" using ddiv_two_Dbl by blast
    from k have "k = ys ! (n div 2 - 1) + ys ! (n div 2)" using dadd_Dbl by blast
    then show ?thesis
      using ne False m unfolding median_def Let_def ys_def[symmetric] n_def[symmetric] by simp
  qed
qed


lemma lerp_in_range:
  assumes ab: "a \<le> b" and lo: "- (ovf / 2) < a" and hi: "b < ovf / 2"
    and t0: "0 \<le> t" and t1: "t < 1"
  shows "lerp (Dbl a) (Dbl b) t = Dbl (a + (b - a) * t)"
proof -
  define d where "d = b - a"
  have d0: "0 \<le> d" using ab by (simp add: d_def)
  have dlt: "d < ovf" using lo hi by (simp add: d_def)
  have diff: "dsub (Dbl b) (Dbl a) = Dbl d"
    using d0 dlt ovf_pos by (simp add: dsub_def d_def rnd_in_range)
  have between: "a \<le> a + d * t" "a + d * t \<le> b"
  proof -
    show "a \<le> a + d * t" using d0 t0 by simp
    have "d * t \<le> d * 1" using d0 t1 by (intro mult_left_mono) simp_all
    then show "a + d * t \<le> b" by (simp add: d_def)
  qed
  have res: "rnd (a + d * t) = Dbl (a + d * t)"
    using between lo hi ovf_pos by (intro rnd_in_range) linarith+
  show ?thesis
  proof (cases "0.5 \<le> t")
    case True
    have m0: "0 \<le> d * (1 - t)" using d0 t1 by simp
    have "d * (1 - t) \<le> d * 1" using d0 t0 by (intro mult_left_mono) simp_all
    then have m1: "d * (1 - t) < ovf" using dlt by simp
    have m: "dmul (Dbl d) (Dbl (1 - t)) = Dbl (d * (1 - t))"
      using m0 m1 ovf_pos by (simp add: rnd_in_range)
    have e: "b - d * (1 - t) = a + d * t" by (simp add: d_def algebra_simps)
    have "lerp (Dbl a) (Dbl b) t = dsub (Dbl b) (dmul (dsub (Dbl b) (Dbl a)) (Dbl (1 - t)))"
      using True by (simp add: lerp_def Let_def)
    also have "\<dots> = dsub (Dbl b) (Dbl (d * (1 - t)))" by (simp only: diff m)
    also have "\<dots> = rnd (b - d * (1 - t))" by (simp add: dsub_def)
    also have "\<dots> = Dbl (a + d * t)" unfolding e by (rule res)
    finally show ?thesis unfolding d_def .
  next
    case False
    have m0: "0 \<le> d * t" using d0 t0 by simp
    have "d * t \<le> d * 1" using d0 t1 by (intro mult_left_mono) simp_all
    then have m1: "d * t < ovf" using dlt by simp
    have m: "dmul (Dbl d) (Dbl t) = Dbl (d * t)"
      using m0 m1 ovf_pos by (simp add: rnd_in_range)
    have "lerp (Dbl a) (Dbl b) t = dadd (Dbl a) (dmul (dsub (Dbl b) (Dbl a)) (Dbl t))"
      using False by (simp add: lerp_def Let_def)
    also have "\<dots> = dadd (Dbl a) (Dbl (d * t))" by (simp only: diff m)
    also have "\<dots> = rnd (a + d * t)" by simp
    also have "\<dots> = Dbl (a + d * t)" by (rule res)
    finally show ?thesis unfolding d_def .
  qed
qed

lemma mean_in_range:
  assumes "\<bar>a\<bar> < ovf / 2" and "\<bar>b\<bar> < ovf / 2"
  shows "ddiv (dadd (Dbl a) (Dbl b)) (Dbl 2) = Dbl ((a + b) / 2)"
proof -
  have a: "- (ovf / 2) < a" "a < ovf / 2" using assms(1) by (simp_all add: abs_less_iff)
  have b: "- (ovf / 2) < b" "b < ovf / 2" using assms(2) by (simp_all add: abs_less_iff)
  have "rnd (a + b) = Dbl (a + b)"
    using a b by (intro rnd_in_range) linarith+
  then have s: "dadd (Dbl a) (Dbl b) = Dbl (a + b)" by simp
  have h: "rnd ((a + b) / 2) = Dbl ((a + b) / 2)"
    using a b ovf_pos by (intro rnd_in_range) argo+
  have "ddiv (dadd (Dbl a) (Dbl b)) (Dbl 2) = ddiv (Dbl (a + b)) (Dbl 2)" by (simp only: s)
  also have "\<dots> = rnd ((a + b) / 2)" by simp
  finally show ?thesis using h by simp
qed

lemma quantile_double_in_range:
  assumes ne: "s \<noteq> []" and bd: "\<forall>x \<in> set s. \<bar>snd x\<bar> < ovf / 2"
    and q0: "0 \<le> q" and q1: "q \<le> 1"
  shows "\<exists>r. quantile_double s q = Dbl r"
proof -
  define ys where "ys = sort (map snd s)"
  define h where "h = q * real (length ys - 1)"
  define lo where "lo = nat \<lfloor>h\<rfloor>"
  define hi where "hi = min (lo + 1) (length ys - 1)"
  have len: "length ys = length s" by (simp add: ys_def)
  then have yne: "ys \<noteq> []" using ne by auto
  have srt: "sorted ys" by (simp add: ys_def)
  have h0: "0 \<le> h" using q0 by (simp add: h_def)
  have "q * real (length ys - 1) \<le> 1 * real (length ys - 1)"
    using q1 by (intro mult_right_mono) simp_all
  then have hn: "h \<le> real (length ys - 1)" by (simp add: h_def)
  have lo_le: "real lo \<le> h" using h0 by (simp add: lo_def)
  have lo_gt: "h < real lo + 1" using h0 unfolding lo_def by linarith
  have lo_n: "lo \<le> length ys - 1" using hn lo_le by linarith
  have hi_n: "hi < length ys" using yne lo_n by (cases ys) (simp_all add: hi_def)
  have lo_hi: "lo \<le> hi" using lo_n by (simp add: hi_def)
  have step: "ys ! lo \<le> ys ! hi" using srt lo_hi hi_n by (simp add: sorted_nth_mono)
  have inb: "\<bar>ys ! i\<bar> < ovf / 2" if "i < length ys" for i
  proof -
    have "ys ! i \<in> set ys" using that by simp
    then have "ys ! i \<in> snd ` set s" by (simp add: ys_def)
    then show ?thesis using bd by auto
  qed
  have lo_lt: "lo < length ys" using lo_hi hi_n by simp
  have "lerp (Dbl (ys ! lo)) (Dbl (ys ! hi)) (h - real lo)
        = Dbl (ys ! lo + (ys ! hi - ys ! lo) * (h - real lo))"
    using step inb[OF lo_lt] inb[OF hi_n] lo_le lo_gt
    by (intro lerp_in_range) (simp_all add: abs_less_iff)
  then show ?thesis
    using ne unfolding quantile_double_def Let_def ys_def[symmetric] h_def[symmetric]
      lo_def[symmetric] hi_def[symmetric] by simp
qed

lemma median_double_in_range:
  assumes ne: "s \<noteq> []" and bd: "\<forall>x \<in> set s. \<bar>snd x\<bar> < ovf / 2"
  shows "\<exists>m. median_double s = Dbl m"
proof -
  define ys where "ys = sort (map snd s)"
  define n where "n = length ys"
  have inb: "\<bar>ys ! i\<bar> < ovf / 2" if "i < length ys" for i
  proof -
    have "ys ! i \<in> set ys" using that by simp
    then have "ys ! i \<in> snd ` set s" by (simp add: ys_def)
    then show ?thesis using bd by auto
  qed
  have npos: "0 < n" using ne by (simp add: n_def ys_def)
  show ?thesis
  proof (cases "odd n")
    case True
    then show ?thesis
      using ne unfolding median_double_def Let_def ys_def[symmetric] n_def[symmetric] by simp
  next
    case False
    have i1: "n div 2 - 1 < length ys" and i2: "n div 2 < length ys"
      using npos by (simp_all add: n_def[symmetric])
    have "median_double s
          = ddiv (dadd (Dbl (ys ! (n div 2 - 1))) (Dbl (ys ! (n div 2)))) (Dbl 2)"
      using ne False unfolding median_double_def Let_def ys_def[symmetric] n_def[symmetric]
      by (simp del: dadd.simps ddiv.simps)
    also have "\<dots> = Dbl ((ys ! (n div 2 - 1) + ys ! (n div 2)) / 2)"
      using inb[OF i1] inb[OF i2] by (rule mean_in_range)
    finally show ?thesis by blast
  qed
qed

text \<open>
  C9, as the specification states it, fails once the arithmetic overflows. For the two
  values \<open>2^1023\<close> and \<open>1.5 * 2^1023\<close>, both in the range of the format, the sum that the
  median takes overflows: the median is plus infinity, while the quartiles are the numbers
  \<open>1.125 * 2^1023\<close> and \<open>1.375 * 2^1023\<close>, so the median is not at most Q3.
\<close>

theorem quartiles_overflow:
  "quantile_double [(0, 2 ^ 1023), (1, 3 * 2 ^ 1022)] 0.25 = Dbl (9 * 2 ^ 1020)
   \<and> median_double [(0, 2 ^ 1023), (1, 3 * 2 ^ 1022)] = PosInf
   \<and> quantile_double [(0, 2 ^ 1023), (1, 3 * 2 ^ 1022)] 0.75 = Dbl (11 * 2 ^ 1020)
   \<and> \<not> dle (median_double [(0, 2 ^ 1023), (1, 3 * 2 ^ 1022)])
            (quantile_double [(0, 2 ^ 1023), (1, 3 * 2 ^ 1022)] 0.75)"
  by (simp add: quantile_double_def median_double_def lerp_def dsub_def rnd_def ovf_def)

text \<open>
  C9, amended. For every non-empty sequence of finite numbers, if the computation of the
  first quartile, the median and the third quartile does not overflow, so that the three
  computed values are numbers, then Q1 is at most the median and the median is at most Q3.
  The computation does not overflow whenever every value is below half the overflow
  threshold in magnitude. Arithmetic within the range is taken exact.
\<close>

theorem quartiles_ordered_in_range:
  "(s \<noteq> [] \<and> (\<forall>x \<in> set s. \<bar>snd x\<bar> < ovf / 2) \<longrightarrow>
      (\<exists>a m b. quantile_double s 0.25 = Dbl a \<and> median_double s = Dbl m \<and>
         quantile_double s 0.75 = Dbl b \<and> a \<le> m \<and> m \<le> b))
   \<and> (quantile_double s' 0.25 = Dbl a' \<and> median_double s' = Dbl m' \<and>
        quantile_double s' 0.75 = Dbl b' \<longrightarrow> a' \<le> m' \<and> m' \<le> b')"
proof -
  have fin: "a \<le> m \<and> m \<le> b"
    if "quantile_double u 0.25 = Dbl a" and "median_double u = Dbl m"
      and "quantile_double u 0.75 = Dbl b" for u a m b
  proof -
    have ne: "u \<noteq> []" using that(2) by (auto simp: median_double_def)
    have "quantile u 0.25 = Fl a" using that(1) by (rule quantile_double_exact)
    moreover have "median u = Fl m" using that(2) by (rule median_double_exact)
    moreover have "quantile u 0.75 = Fl b" using that(3) by (rule quantile_double_exact)
    ultimately show ?thesis using exact_quartiles_ordered[OF ne] by auto
  qed
  have bounded: "\<exists>a m b. quantile_double s 0.25 = Dbl a \<and> median_double s = Dbl m \<and>
         quantile_double s 0.75 = Dbl b \<and> a \<le> m \<and> m \<le> b"
    if ne: "s \<noteq> []" and bd: "\<forall>x \<in> set s. \<bar>snd x\<bar> < ovf / 2"
  proof -
    obtain a where a: "quantile_double s 0.25 = Dbl a"
      using quantile_double_in_range[OF ne bd, of "0.25"] by auto
    obtain m where m: "median_double s = Dbl m"
      using median_double_in_range[OF ne bd] by auto
    obtain b where b: "quantile_double s 0.75 = Dbl b"
      using quantile_double_in_range[OF ne bd, of "0.75"] by auto
    show ?thesis using a m b fin[OF a m b] by blast
  qed
  show ?thesis using fin bounded by blast
qed

theorem quartiles_ordered_in_range_witness:
  "[(0, 10), (1, 20), (2, 30), (3, 40)] \<noteq> ([] :: (nat \<times> real) list)
   \<and> list_all (\<lambda>x. \<bar>snd x\<bar> < ovf / 2) ([(0, 10), (1, 20), (2, 30), (3, 40)] :: (nat \<times> real) list)
   \<and> quantile_double [(0, 10), (1, 20), (2, 30), (3, 40)] 0.25 = Dbl 17.5
   \<and> median_double [(0, 10), (1, 20), (2, 30), (3, 40)] = Dbl 25
   \<and> quantile_double [(0, 10), (1, 20), (2, 30), (3, 40)] 0.75 = Dbl 32.5
   \<and> (17.5 :: real) \<le> 25 \<and> (25 :: real) \<le> 32.5"
  using quartiles_ordered_in_range
    [of "[(0, 10), (1, 20), (2, 30), (3, 40)]" "[(0, 10), (1, 20), (2, 30), (3, 40)]" "17.5" "25" "32.5"]
  by (simp add: quantile_double_def median_double_def lerp_def dsub_def rnd_def ovf_def)

section \<open>The outlier detector on the values of a column\<close>

text \<open>The series of a column, with missing values dropped, holds the values of the column;
  the mask of the strict comparison keeps the rows that lie above the cutoff.\<close>

lemma dropna_column:
  "length ls = length rs \<Longrightarrow>
   map snd (dropna (zip ls (map (\<lambda>r. cells r col) rs))) = map snd (county_values rs col)"
proof (induction ls rs rule: list_induct2)
  case Nil
  show ?case by simp
next
  case (Cons l ls r rs)
  then show ?case by (cases "cells r col") simp_all
qed

lemma mask_filter:
  "length ls = length rs \<Longrightarrow>
   map snd (filter fst (zip (map (\<lambda>(i, v). fgt v (Fl c)) (zip ls (map (\<lambda>r. cells r col) rs))) rs))
     = filter (above c col) rs"
proof (induction ls rs rule: list_induct2)
  case Nil
  show ?case by simp
next
  case (Cons l ls r rs)
  then show ?case by (cases "cells r col") (simp_all add: above_def)
qed

lemma quantile_quartile:
  "s \<noteq> [] \<Longrightarrow> quantile s q = Fl (quartile (map snd s) q)"
  by (simp add: quantile_def quartile_def Let_def)

lemma iqr_outliers_values:
  assumes col: "col \<in> set (columns df)" and ne: "column_values df col \<noteq> []"
  shows "iqr_outliers df col =
           Inr (Fl (tukey_cutoff (column_values df col)),
                df\<lparr>rows := filter (above (tukey_cutoff (column_values df col)) col) (rows df)\<rparr>)"
proof -
  define c where "c = zip [0..<length (rows df)] (map (\<lambda>r. cells r col) (rows df))"
  have g: "getitem df col = Inr c" using col by (simp add: getitem_def c_def)
  have vals: "map snd (dropna c) = column_values df col"
    unfolding c_def column_values_def by (rule dropna_column) simp
  then have s_ne: "dropna c \<noteq> []" using ne by auto
  have q1: "quantile (dropna c) 0.25 = Fl (quartile (column_values df col) 0.25)"
    using quantile_quartile[OF s_ne] vals by simp
  have q3: "quantile (dropna c) 0.75 = Fl (quartile (column_values df col) 0.75)"
    using quantile_quartile[OF s_ne] vals by simp
  have cut: "fadd (quantile (dropna c) 0.75)
               (fmul (Fl 1.5) (fsub (quantile (dropna c) 0.75) (quantile (dropna c) 0.25)))
             = Fl (tukey_cutoff (column_values df col))"
    unfolding q1 q3 by (simp add: tukey_cutoff_def)
  have sel: "select_rows df (map (\<lambda>(i, v). fgt v (Fl (tukey_cutoff (column_values df col)))) c)
             = df\<lparr>rows := filter (above (tukey_cutoff (column_values df col)) col) (rows df)\<rparr>"
    unfolding select_rows_def c_def by (simp add: mask_filter)
  show ?thesis
    unfolding iqr_outliers_def g Let_def sum.case cut sel using s_ne by simp
qed

lemma iqr_outliers_empty:
  assumes col: "col \<in> set (columns df)" and e: "column_values df col = []"
  shows "iqr_outliers df col = Inr (NaN, df\<lparr>rows := []\<rparr>)"
proof -
  define c where "c = zip [0..<length (rows df)] (map (\<lambda>r. cells r col) (rows df))"
  have g: "getitem df col = Inr c" using col by (simp add: getitem_def c_def)
  have vals: "map snd (dropna c) = column_values df col"
    unfolding c_def column_values_def by (rule dropna_column) simp
  then have "dropna c = []" using e by simp
  then show ?thesis unfolding iqr_outliers_def g by (simp add: head_def)
qed

lemma cells_metric_row [simp]: "cells (metric_row c v) ''value'' = v"
  by (simp add: metric_row_def)

lemma county_metric_row [simp]: "county (metric_row c v) = c"
  by (simp add: metric_row_def)

lemma column_values_empty:
  "column_values df col = [] \<longleftrightarrow> (\<forall>r \<in> set (rows df). cells r col = NaN)"
proof -
  have "county_values rs col = [] \<longleftrightarrow> (\<forall>r \<in> set rs. cells r col = NaN)" for rs
    by (induction rs) (auto split: float.splits)
  then show ?thesis by (simp add: column_values_def)
qed





text \<open>
  C10. Every row that the outlier detector returns is a row of the frame whose cell in the
  column is a value, never a missing one, and that value is strictly greater than the
  cutoff: the comparison with the cutoff is false on a missing cell.
\<close>

theorem outliers_not_missing:
  assumes "iqr_outliers df col = Inr (cutoff, out)"
  shows "(\<forall>r \<in> set (rows out). \<exists>v. cells r col = Fl v \<and> fgt (Fl v) cutoff)
         \<and> set (rows out) \<subseteq> set (rows df)"
proof (cases "col \<in> set (columns df)")
  case False
  then show ?thesis using assms by (simp add: iqr_outliers_def getitem_def)
next
  case True
  show ?thesis
  proof (cases "column_values df col = []")
    case True
    with \<open>col \<in> set (columns df)\<close> assms have "rows out = []"
      using iqr_outliers_empty[of col df] by auto
    then show ?thesis by simp
  next
    case False
    with \<open>col \<in> set (columns df)\<close> assms
    have c: "cutoff = Fl (tukey_cutoff (column_values df col))"
      and o: "rows out = filter (above (tukey_cutoff (column_values df col)) col) (rows df)"
      using iqr_outliers_values[of col df] by auto
    show ?thesis unfolding o c by (auto simp: above_def split: float.splits)
  qed
qed

theorem outliers_not_missing_witness:
  "iqr_outliers (metric_table [(''A'', Fl 1), (''B'', NaN), (''C'', Fl 2), (''D'', Fl 3),
                               (''E'', Fl 100)]) ''value''
     = Inr (Fl 65.5, metric_table [(''E'', Fl 100)])
   \<and> list_all (\<lambda>r. \<exists>v. cells r ''value'' = Fl v \<and> fgt (Fl v) (Fl 65.5))
        (rows (metric_table [(''E'', Fl 100)]))
   \<and> list_all (\<lambda>r. r \<in> set (rows (metric_table [(''A'', Fl 1), (''B'', NaN), (''C'', Fl 2),
                                                    (''D'', Fl 3), (''E'', Fl 100)])))
        (rows (metric_table [(''E'', Fl 100)]))"
proof -
  have e: "iqr_outliers (metric_table [(''A'', Fl 1), (''B'', NaN), (''C'', Fl 2), (''D'', Fl 3),
                               (''E'', Fl 100)]) ''value''
     = Inr (Fl 65.5, metric_table [(''E'', Fl 100)])"
    by (simp add: iqr_outliers_def metric_table_def getitem_def quantile_def lerp_at_def
        select_rows_def upt_conv_Cons)
  show ?thesis using e outliers_not_missing [OF e] by (auto simp: list_all_iff)
qed

section \<open>A column with no value\<close>

lemma dropna_empty:
  "dropna series = [] \<longleftrightarrow> (\<forall>x \<in> set series. snd x = NaN)"
proof (induction series)
  case Nil
  show ?case by simp
next
  case (Cons x series)
  obtain i v where x: "x = (i, v)" by (cases x)
  show ?case using Cons by (cases v) (simp_all add: x)
qed

lemma dropna_getitem_empty:
  assumes "col \<in> set (columns df)" and "column_values df col = []"
  shows "\<exists>c. getitem df col = Inr c \<and> dropna c = []"
proof -
  define c where "c = zip [0..<length (rows df)] (map (\<lambda>r. cells r col) (rows df))"
  have g: "getitem df col = Inr c" using assms(1) by (simp add: getitem_def c_def)
  have "map snd (dropna c) = column_values df col"
    unfolding c_def column_values_def by (rule dropna_column) simp
  then show ?thesis using g assms(2) by simp
qed

text \<open>
  C2. When every cell of the column is missing, the outlier detector returns the undefined
  cutoff NaN with an empty outlier frame, the outlier section prints its fixed sentence,
  the ranking has no rows to show, and the summary returns its no-data result and prints
  only the no-data sentence. None of them raises, and none of the printed texts holds a
  number, so no NaN is printed.
\<close>

theorem all_missing_sentinels:
  "(col \<in> set (columns df) \<and> (\<forall>r \<in> set (rows df). cells r col = NaN) \<longrightarrow>
      iqr_outliers df col = Inr (NaN, df\<lparr>rows := []\<rparr>) \<and>
      outlier_section df col =
        Inr [Markdown [Txt ''#### Counties that are unusually high (IQR rule)''],
             Write [Txt ''No counties appear as strong high outliers on this metric.'']] \<and>
      df_bar df col = Inr None)
   \<and> ((\<forall>x \<in> set series. snd x = NaN) \<longrightarrow>
      summarize var series df' = Inr None \<and>
      interpretation_univariate var series df' =
        Inr [Write [Txt ''No data available for this variable.'']])
   \<and> \<not> list_ex text_nan
         [Markdown [Txt ''#### Counties that are unusually high (IQR rule)''],
          Write [Txt ''No counties appear as strong high outliers on this metric.''],
          Write [Txt ''No data available for this variable.'']]
   \<and> iqr_outliers (metric_table [(''A'', NaN), (''B'', NaN)]) ''value''
       = Inr (NaN, metric_table [])
   \<and> summarize ''value'' [(0, NaN), (1, NaN)] (metric_table [(''A'', NaN), (''B'', NaN)])
       = Inr None"
proof (intro conjI impI)
  assume a: "col \<in> set (columns df) \<and> (\<forall>r \<in> set (rows df). cells r col = NaN)"
  then have e: "column_values df col = []" by (simp add: column_values_empty)
  show o: "iqr_outliers df col = Inr (NaN, df\<lparr>rows := []\<rparr>)"
    using a e iqr_outliers_empty by blast
  show "outlier_section df col =
        Inr [Markdown [Txt ''#### Counties that are unusually high (IQR rule)''],
             Write [Txt ''No counties appear as strong high outliers on this metric.'']]"
    by (simp add: outlier_section_def o)
  from a e obtain c where "getitem df col = Inr c" and "dropna c = []"
    using dropna_getitem_empty by blast
  then show "df_bar df col = Inr None" by (simp add: df_bar_def)
next
  assume "\<forall>x \<in> set series. snd x = NaN"
  then have d: "dropna series = []" by (simp add: dropna_empty)
  then show s: "summarize var series df' = Inr None" by (simp add: summarize_def)
  show "interpretation_univariate var series df' =
        Inr [Write [Txt ''No data available for this variable.'']]"
    by (simp add: interpretation_univariate_def s)
next
  show "\<not> list_ex text_nan
         [Markdown [Txt ''#### Counties that are unusually high (IQR rule)''],
          Write [Txt ''No counties appear as strong high outliers on this metric.''],
          Write [Txt ''No data available for this variable.'']]"
    by simp
next
  show "iqr_outliers (metric_table [(''A'', NaN), (''B'', NaN)]) ''value''
       = Inr (NaN, metric_table [])"
    by (simp add: iqr_outliers_def metric_table_def getitem_def head_def upt_conv_Cons)
next
  show "summarize ''value'' [(0, NaN), (1, NaN)] (metric_table [(''A'', NaN), (''B'', NaN)])
       = Inr None"
    by (simp add: summarize_def)
qed

theorem all_missing_sentinels_witness:
  "''value'' \<in> set (columns (metric_table [(''A'', NaN), (''B'', NaN)]))
   \<and> list_all (\<lambda>r. cells r ''value'' = NaN) (rows (metric_table [(''A'', NaN), (''B'', NaN)]))
   \<and> list_all (\<lambda>x. snd x = NaN) [(0::nat, NaN), (1, NaN)]
   \<and> iqr_outliers (metric_table [(''A'', NaN), (''B'', NaN)]) ''value''
       = Inr (NaN, (metric_table [(''A'', NaN), (''B'', NaN)])\<lparr>rows := []\<rparr>)
   \<and> outlier_section (metric_table [(''A'', NaN), (''B'', NaN)]) ''value'' =
        Inr [Markdown [Txt ''#### Counties that are unusually high (IQR rule)''],
             Write [Txt ''No counties appear as strong high outliers on this metric.'']]
   \<and> df_bar (metric_table [(''A'', NaN), (''B'', NaN)]) ''value'' = Inr None
   \<and> interpretation_univariate ''value'' [(0, NaN), (1, NaN)]
        (metric_table [(''A'', NaN), (''B'', NaN)])
       = Inr [Write [Txt ''No data available for this variable.'']]"
  using all_missing_sentinels
    [of "''value''" "metric_table [(''A'', NaN), (''B'', NaN)]" "[(0, NaN), (1, NaN)]"
        "''value''" "metric_table [(''A'', NaN), (''B'', NaN)]"]
  by (simp add: metric_table_def)


section \<open>The groups of the ranking chart\<close>







section \<open>The ratio of the highest to the lowest value\<close>

lemma smin_Min:
  assumes "s \<noteq> []"
  shows "smin s = Fl (Min (set (map snd s)))"
proof (cases s)
  case Nil
  then show ?thesis using assms by simp
next
  case (Cons a list)
  show ?thesis unfolding Cons
    using Min.set_eq_fold[of "snd a" "map snd list"] by (simp add: smin_def)
qed

lemma smax_Max:
  assumes "s \<noteq> []"
  shows "smax s = Fl (Max (set (map snd s)))"
proof (cases s)
  case Nil
  then show ?thesis using assms by simp
next
  case (Cons a list)
  show ?thesis unfolding Cons
    using Max.set_eq_fold[of "snd a" "map snd list"] by (simp add: smax_def)
qed

lemma max_min_ratio_values:
  "max_min_ratio (Fl a) (Fl b) =
     (if 0 < a \<and> 1 < b / a \<and> b / a \<le> 10 then Some (Fl (b / a)) else None)"
  by (simp add: max_min_ratio_def Let_def)

lemma summarize_fields:
  assumes "summarize var series df = Inr (Some sm)"
  shows "dropna series \<noteq> []"
    and "sm_vmin sm = smin (dropna series)"
    and "sm_vmax sm = smax (dropna series)"
    and "sm_ratio sm = max_min_ratio (smin (dropna series)) (smax (dropna series))"
  using assms by (auto simp: summarize_def Let_def split: if_splits sum.splits)

text \<open>
  C5. The ratio of the highest to the lowest value is computed only when the lowest value
  is positive, and it is kept exactly when it is greater than 1 and at most 10; otherwise
  the summary has no ratio. The sentence about the ratio is printed exactly when the
  summary has one. On the table with the single row A 7 the ratio would be 1 and the
  summary has none.
\<close>

theorem ratio_window:
  "max_min_ratio (Fl a) (Fl b) =
     (if 0 < a \<and> 1 < b / a \<and> b / a \<le> 10 then Some (Fl (b / a)) else None)
   \<and> (summarize var series df = Inr (Some sm) \<longrightarrow>
        sm_vmin sm = Fl (Min (set (map snd (dropna series)))) \<and>
        sm_vmax sm = Fl (Max (set (map snd (dropna series)))) \<and>
        sm_ratio sm = max_min_ratio (sm_vmin sm) (sm_vmax sm))
   \<and> ((\<exists>r. [Txt ''- The highest county is about **'', Fmt1 r,
              Txt '' times** the lowest on this metric.''] \<in> set (bullets sm'))
        \<longleftrightarrow> sm_ratio sm' \<noteq> None)
   \<and> summarize ''value'' [(0, Fl 7)] (metric_table [(''A'', Fl 7)]) =
        Inr (Some \<lparr>sm_label = ''value'', sm_med = Fl 7, sm_q1 = Fl 7, sm_q3 = Fl 7,
                   sm_vmin = Fl 7, sm_vmax = Fl 7, sm_ratio = None,
                   sm_bottom3 = [(''A'', Fl 7)], sm_top3 = [(''A'', Fl 7)]\<rparr>)
   \<and> fdiv (Fl 7) (Fl 7) = Fl 1"
proof (intro conjI impI)
  show "max_min_ratio (Fl a) (Fl b) =
     (if 0 < a \<and> 1 < b / a \<and> b / a \<le> 10 then Some (Fl (b / a)) else None)"
    by (rule max_min_ratio_values)
next
  assume a: "summarize var series df = Inr (Some sm)"
  note f = summarize_fields[OF a]
  show "sm_vmin sm = Fl (Min (set (map snd (dropna series))))"
    using f(1,2) by (simp add: smin_Min)
  show "sm_vmax sm = Fl (Max (set (map snd (dropna series))))"
    using f(1,3) by (simp add: smax_Max)
  show "sm_ratio sm = max_min_ratio (sm_vmin sm) (sm_vmax sm)"
    using f by simp
next
  show "(\<exists>r. [Txt ''- The highest county is about **'', Fmt1 r,
              Txt '' times** the lowest on this metric.''] \<in> set (bullets sm'))
        \<longleftrightarrow> sm_ratio sm' \<noteq> None"
    by (cases "sm_ratio sm'") (simp_all add: bullets_def)
next
  show "summarize ''value'' [(0, Fl 7)] (metric_table [(''A'', Fl 7)]) =
        Inr (Some \<lparr>sm_label = ''value'', sm_med = Fl 7, sm_q1 = Fl 7, sm_q3 = Fl 7,
                   sm_vmin = Fl 7, sm_vmax = Fl 7, sm_ratio = None,
                   sm_bottom3 = [(''A'', Fl 7)], sm_top3 = [(''A'', Fl 7)]\<rparr>)"
    by (simp add: summarize_def metric_table_def loc_def sort_values_def var_label_def
        VAR_LABELS_def median_def quantile_def lerp_at_def smin_def smax_def
        max_min_ratio_def tail_def)
next
  show "fdiv (Fl 7) (Fl 7) = Fl 1" by simp
qed

theorem ratio_window_witness:
  "summarize ''value'' [(0, Fl 2), (1, NaN), (2, Fl 8), (3, Fl 4)]
     (metric_table [(''A'', Fl 2), (''B'', NaN), (''C'', Fl 8), (''D'', Fl 4)]) =
     Inr (Some \<lparr>sm_label = ''value'', sm_med = Fl 4, sm_q1 = Fl 3, sm_q3 = Fl 6,
                sm_vmin = Fl 2, sm_vmax = Fl 8, sm_ratio = Some (Fl 4),
                sm_bottom3 = [(''A'', Fl 2), (''D'', Fl 4), (''C'', Fl 8)],
                sm_top3 = [(''A'', Fl 2), (''D'', Fl 4), (''C'', Fl 8)]\<rparr>)
   \<and> Min (set (map snd (dropna [(0, Fl 2), (1, NaN), (2, Fl 8), (3, Fl 4)]))) = 2
   \<and> Max (set (map snd (dropna [(0, Fl 2), (1, NaN), (2, Fl 8), (3, Fl 4)]))) = 8
   \<and> max_min_ratio (Fl 2) (Fl 8) = Some (Fl 4)
   \<and> max_min_ratio (Fl 2) (Fl 21) = None
   \<and> max_min_ratio (Fl 0) (Fl 8) = None
   \<and> max_min_ratio (Fl (- 2)) (Fl (- 8)) = None"
proof -
  have e: "summarize ''value'' [(0, Fl 2), (1, NaN), (2, Fl 8), (3, Fl 4)]
     (metric_table [(''A'', Fl 2), (''B'', NaN), (''C'', Fl 8), (''D'', Fl 4)]) =
     Inr (Some \<lparr>sm_label = ''value'', sm_med = Fl 4, sm_q1 = Fl 3, sm_q3 = Fl 6,
                sm_vmin = Fl 2, sm_vmax = Fl 8, sm_ratio = Some (Fl 4),
                sm_bottom3 = [(''A'', Fl 2), (''D'', Fl 4), (''C'', Fl 8)],
                sm_top3 = [(''A'', Fl 2), (''D'', Fl 4), (''C'', Fl 8)]\<rparr>)"
    by (simp add: summarize_def metric_table_def loc_def sort_values_def var_label_def
        VAR_LABELS_def median_def quantile_def lerp_at_def smin_def smax_def
        max_min_ratio_def tail_def Let_def)
  show ?thesis
    using e ratio_window [where var = "''value''"
        and series = "[(0, Fl 2), (1, NaN), (2, Fl 8), (3, Fl 4)]"
        and df = "metric_table [(''A'', Fl 2), (''B'', NaN), (''C'', Fl 8), (''D'', Fl 4)]"
        and sm = "\<lparr>sm_label = ''value'', sm_med = Fl 4, sm_q1 = Fl 3, sm_q3 = Fl 6,
                sm_vmin = Fl 2, sm_vmax = Fl 8, sm_ratio = Some (Fl 4),
                sm_bottom3 = [(''A'', Fl 2), (''D'', Fl 4), (''C'', Fl 8)],
                sm_top3 = [(''A'', Fl 2), (''D'', Fl 4), (''C'', Fl 8)]\<rparr>"]
    by (simp add: max_min_ratio_def)
qed


section \<open>The catalog: themes and labels\<close>

text \<open>
  C6, as the specification states it, fails at \<open>is_medical_desert\<close>: the name is one of the
  twelve recognised names and has a label, but no theme of \<^verbatim>\<open>THEME_VARS\<close> lists it.
\<close>

theorem medical_desert_has_no_theme:
  "''is_medical_desert'' \<in> set canonical_names \<and> themes_of ''is_medical_desert'' = []"
  by (simp add: canonical_names_def VAR_LABELS_def themes_of_def THEME_VARS_def)

text \<open>
  C6, amended. Each of the eleven names of \<^verbatim>\<open>EDA_VARS\<close> is listed by exactly one of
  the four themes. The recognised names are these eleven and \<open>is_medical_desert\<close>, they
  are pairwise different, and each of the twelve has exactly one label, the one that
  \<^verbatim>\<open>VAR_LABELS\<close> gives it. \<open>is_medical_desert\<close> belongs to no theme.
\<close>

theorem catalog_themes_and_labels:
  "map (\<lambda>v. (v, themes_of v)) EDA_VARS =
     [(''hospitals_per_10k'', [''Capacity and access'']),
      (''beds_per_10k'', [''Capacity and access'']),
      (''num_hospitals'', [''Capacity and access'']),
      (''population_total'', [''Population and daytime presence'']),
      (''total_capacity'', [''Capacity and access'']),
      (''mp_pov150_mean'', [''Social barriers'']),
      (''mp_uninsur_mean'', [''Social barriers'']),
      (''mp_noveh_mean'', [''Social barriers'']),
      (''e_heat_risk_mean'', [''Heat and climate'']),
      (''max_temp_2022'', [''Heat and climate'']),
      (''e_daypop_mean'', [''Population and daytime presence''])]
   \<and> canonical_names = EDA_VARS @ [''is_medical_desert'']
   \<and> distinct canonical_names
   \<and> map (\<lambda>v. (v, var_label v)) canonical_names = VAR_LABELS
   \<and> themes_of ''is_medical_desert'' = []"
proof (intro conjI)
  show "map (\<lambda>v. (v, themes_of v)) EDA_VARS =
     [(''hospitals_per_10k'', [''Capacity and access'']),
      (''beds_per_10k'', [''Capacity and access'']),
      (''num_hospitals'', [''Capacity and access'']),
      (''population_total'', [''Population and daytime presence'']),
      (''total_capacity'', [''Capacity and access'']),
      (''mp_pov150_mean'', [''Social barriers'']),
      (''mp_uninsur_mean'', [''Social barriers'']),
      (''mp_noveh_mean'', [''Social barriers'']),
      (''e_heat_risk_mean'', [''Heat and climate'']),
      (''max_temp_2022'', [''Heat and climate'']),
      (''e_daypop_mean'', [''Population and daytime presence''])]"
    by (simp add: EDA_VARS_def themes_of_def THEME_VARS_def)
  show "canonical_names = EDA_VARS @ [''is_medical_desert'']"
    by (simp add: canonical_names_def VAR_LABELS_def EDA_VARS_def)
  show "distinct canonical_names"
    by (simp add: canonical_names_def VAR_LABELS_def)
  show "map (\<lambda>v. (v, var_label v)) canonical_names = VAR_LABELS"
    by (simp add: canonical_names_def VAR_LABELS_def var_label_def)
  show "themes_of ''is_medical_desert'' = []"
    by (simp add: themes_of_def THEME_VARS_def)
qed

section \<open>Names that the catalog does not know\<close>

lemma unknown_label: "var \<notin> set canonical_names \<Longrightarrow> var_label var = var"
proof -
  assume "var \<notin> set canonical_names"
  then have "map_of VAR_LABELS var = None"
    by (simp add: canonical_names_def map_of_eq_None_iff)
  then show ?thesis by (simp add: var_label_def)
qed

lemma unknown_explanation:
  "var \<notin> set canonical_names \<Longrightarrow>
   var_explanation var = ''County-level summary for the metric shown on the chart.''"
  by (simp add: canonical_names_def VAR_LABELS_def var_explanation_def)

lemma unknown_why:
  "var \<notin> set canonical_names \<Longrightarrow>
   why_text var =
     ''This metric captures one aspect of county-level risk or capacity that interacts with heat conditions.''"
  by (simp add: canonical_names_def VAR_LABELS_def why_text_def)

lemma unknown_model:
  "var \<notin> set canonical_names \<Longrightarrow>
   model_text var =
     ''- This variable can be included as a county-level feature after appropriate scaling or standardisation.''"
  by (simp add: canonical_names_def VAR_LABELS_def model_text_def)

lemma texts_not_empty:
  "var_explanation v \<noteq> []" "why_text v \<noteq> []" "model_text v \<noteq> []"
  by (simp_all add: var_explanation_def why_text_def model_text_def)


text \<open>
  C8. For a name that is not in the catalog, the label is the name itself and each of the
  three narrative texts is its generic text. The three texts are never empty, for any
  name, and choosing them cannot fail: they are total functions of the name. Whenever the
  summary of a variable exists, the page is built and shows the three texts of the name.
  For the unknown name \<open>foo\<close> the page is built, with the generic texts.
\<close>

theorem unknown_variable_fallback:
  "(var \<notin> set canonical_names \<longrightarrow>
      var_label var = var \<and>
      var_explanation var = ''County-level summary for the metric shown on the chart.'' \<and>
      why_text var =
        ''This metric captures one aspect of county-level risk or capacity that interacts with heat conditions.'' \<and>
      model_text var =
        ''- This variable can be included as a county-level feature after appropriate scaling or standardisation.'')
   \<and> var_explanation v \<noteq> [] \<and> why_text v \<noteq> [] \<and> model_text v \<noteq> []
   \<and> (summarize var series df = Inr (Some sm) \<longrightarrow>
        interpretation_univariate var series df = Inr (narrate var sm) \<and>
        sm_label sm = var_label var \<and>
        Write [Txt (var_explanation var)] \<in> set (narrate var sm) \<and>
        Write [Txt (why_text var)] \<in> set (narrate var sm) \<and>
        Write [Txt (model_text var)] \<in> set (narrate var sm))
   \<and> ''foo'' \<notin> set canonical_names
   \<and> interpretation_univariate ''foo'' [(0, Fl 7)] foo_table =
       Inr (narrate ''foo''
              \<lparr>sm_label = ''foo'', sm_med = Fl 7, sm_q1 = Fl 7, sm_q3 = Fl 7,
               sm_vmin = Fl 7, sm_vmax = Fl 7, sm_ratio = None,
               sm_bottom3 = [(''A'', Fl 7)], sm_top3 = [(''A'', Fl 7)]\<rparr>)"
proof (intro conjI impI)
  assume u: "var \<notin> set canonical_names"
  show "var_label var = var" using u by (rule unknown_label)
  show "var_explanation var = ''County-level summary for the metric shown on the chart.''"
    using u by (rule unknown_explanation)
  show "why_text var =
        ''This metric captures one aspect of county-level risk or capacity that interacts with heat conditions.''"
    using u by (rule unknown_why)
  show "model_text var =
        ''- This variable can be included as a county-level feature after appropriate scaling or standardisation.''"
    using u by (rule unknown_model)
next
  show "var_explanation v \<noteq> []" "why_text v \<noteq> []" "model_text v \<noteq> []"
    by (rule texts_not_empty)+
next
  assume s: "summarize var series df = Inr (Some sm)"
  show "interpretation_univariate var series df = Inr (narrate var sm)"
    by (simp add: interpretation_univariate_def s)
  show "sm_label sm = var_label var"
    using s by (auto simp: summarize_def Let_def split: if_splits sum.splits)
  show "Write [Txt (var_explanation var)] \<in> set (narrate var sm)"
    by (simp add: narrate_def)
  show "Write [Txt (why_text var)] \<in> set (narrate var sm)"
    by (simp add: narrate_def)
  show "Write [Txt (model_text var)] \<in> set (narrate var sm)"
    by (simp add: narrate_def)
next
  show "''foo'' \<notin> set canonical_names"
    by (simp add: canonical_names_def VAR_LABELS_def)
next
  have "summarize ''foo'' [(0, Fl 7)] foo_table =
        Inr (Some \<lparr>sm_label = ''foo'', sm_med = Fl 7, sm_q1 = Fl 7, sm_q3 = Fl 7,
               sm_vmin = Fl 7, sm_vmax = Fl 7, sm_ratio = None,
               sm_bottom3 = [(''A'', Fl 7)], sm_top3 = [(''A'', Fl 7)]\<rparr>)"
    by (simp add: summarize_def foo_table_def loc_def sort_values_def var_label_def
        VAR_LABELS_def median_def quantile_def lerp_at_def smin_def smax_def
        max_min_ratio_def tail_def)
  then show "interpretation_univariate ''foo'' [(0, Fl 7)] foo_table =
       Inr (narrate ''foo''
              \<lparr>sm_label = ''foo'', sm_med = Fl 7, sm_q1 = Fl 7, sm_q3 = Fl 7,
               sm_vmin = Fl 7, sm_vmax = Fl 7, sm_ratio = None,
               sm_bottom3 = [(''A'', Fl 7)], sm_top3 = [(''A'', Fl 7)]\<rparr>)"
    by (simp add: interpretation_univariate_def)
qed

theorem unknown_variable_fallback_witness:
  "''foo'' \<notin> set canonical_names
   \<and> var_label ''foo'' = ''foo''
   \<and> var_explanation ''foo'' = ''County-level summary for the metric shown on the chart.''
   \<and> why_text ''foo'' =
        ''This metric captures one aspect of county-level risk or capacity that interacts with heat conditions.''
   \<and> model_text ''foo'' =
        ''- This variable can be included as a county-level feature after appropriate scaling or standardisation.''
   \<and> summarize ''foo'' [(0, Fl 7)] foo_table =
        Inr (Some \<lparr>sm_label = ''foo'', sm_med = Fl 7, sm_q1 = Fl 7, sm_q3 = Fl 7,
               sm_vmin = Fl 7, sm_vmax = Fl 7, sm_ratio = None,
               sm_bottom3 = [(''A'', Fl 7)], sm_top3 = [(''A'', Fl 7)]\<rparr>)
   \<and> Write [Txt ''County-level summary for the metric shown on the chart.'']
        \<in> set (narrate ''foo''
              \<lparr>sm_label = ''foo'', sm_med = Fl 7, sm_q1 = Fl 7, sm_q3 = Fl 7,
               sm_vmin = Fl 7, sm_vmax = Fl 7, sm_ratio = None,
               sm_bottom3 = [(''A'', Fl 7)], sm_top3 = [(''A'', Fl 7)]\<rparr>)"
proof -
  have n: "''foo'' \<notin> set canonical_names"
    by (simp add: canonical_names_def VAR_LABELS_def)
  have s: "summarize ''foo'' [(0, Fl 7)] foo_table =
        Inr (Some \<lparr>sm_label = ''foo'', sm_med = Fl 7, sm_q1 = Fl 7, sm_q3 = Fl 7,
               sm_vmin = Fl 7, sm_vmax = Fl 7, sm_ratio = None,
               sm_bottom3 = [(''A'', Fl 7)], sm_top3 = [(''A'', Fl 7)]\<rparr>)"
    by (simp add: summarize_def foo_table_def loc_def sort_values_def var_label_def
        VAR_LABELS_def median_def quantile_def lerp_at_def smin_def smax_def
        max_min_ratio_def tail_def)
  note f = unknown_variable_fallback
    [where var = "''foo''" and series = "[(0, Fl 7)]" and df = foo_table
       and sm = "\<lparr>sm_label = ''foo'', sm_med = Fl 7, sm_q1 = Fl 7, sm_q3 = Fl 7,
               sm_vmin = Fl 7, sm_vmax = Fl 7, sm_ratio = None,
               sm_bottom3 = [(''A'', Fl 7)], sm_top3 = [(''A'', Fl 7)]\<rparr>"]
  from f n s show ?thesis by metis
qed


section \<open>The three lowest and the three highest counties\<close>

lemma dropna_member: "(i, v) \<in> set (dropna s) \<Longrightarrow> (i, Fl v) \<in> set s"
  by (induction s rule: dropna.induct) auto

lemma dropna_rows:
  "length ls = length rs \<Longrightarrow> (\<forall>j < length rs. g (ls ! j) = rs ! j) \<Longrightarrow>
   map (\<lambda>(i, v). (county (g i), v)) (dropna (zip ls (map (\<lambda>r. cells r var) rs)))
     = county_values rs var"
proof (induction ls rs rule: list_induct2)
  case Nil
  show ?case by simp
next
  case (Cons l ls r rs)
  have h: "g l = r" using Cons.prems by auto
  have t: "\<forall>j < length rs. g (ls ! j) = rs ! j"
  proof (intro allI impI)
    fix j assume "j < length rs"
    then have "g ((l # ls) ! Suc j) = (r # rs) ! Suc j" using Cons.prems by auto
    then show "g (ls ! j) = rs ! j" by simp
  qed
  show ?case using Cons.IH[OF t] h by (cases "cells r var") simp_all
qed

lemma series_entry:
  "(i, x) \<in> set (zip [0..<length rs] (map f rs)) \<Longrightarrow> i < length rs \<and> f (rs ! i) = x"
  by (auto simp: set_zip)

lemma tail_map: "tail n (map f xs) = map f (drop (length xs - n) xs)"
  by (simp add: tail_def drop_map)

lemma take_drop_overlap:
  assumes "t \<noteq> []" and "length t < 6"
  shows "set (take 3 t) \<inter> set (drop (length t - 3) t) \<noteq> {}"
proof (cases "length t < 3")
  case True
  then have "take 3 t = t" and "drop (length t - 3) t = t" by simp_all
  then show ?thesis using assms(1) by simp
next
  case False
  define k where "k = length t - 3"
  have k2: "k \<le> 2" and kl: "k + 3 = length t" using False assms(2) by (simp_all add: k_def)
  have "2 < length (take 3 t)" using False by simp
  then have "take 3 t ! 2 \<in> set (take 3 t)" by (rule nth_mem)
  then have a: "t ! 2 \<in> set (take 3 t)" by simp
  have "2 - k < length (drop k t)" using kl by simp
  then have "drop k t ! (2 - k) \<in> set (drop k t)" by (rule nth_mem)
  moreover have "drop k t ! (2 - k) = t ! 2" using k2 kl by simp
  ultimately have b: "t ! 2 \<in> set (drop (length t - 3) t)" by (simp add: k_def)
  show ?thesis using a b by blast
qed


text \<open>
  C7. For the series of a column with at least one value, the summary is built from the
  rows that have a value, sorted ascending by value: the bottom three are the first three
  of the sorted rows and the top three are the last three, all rows when there are fewer
  than three. With fewer than six such rows the two selections share a row.
\<close>

theorem top_bottom_three:
  "getitem df var = Inr series \<and> dropna series \<noteq> [] \<longrightarrow>
     (\<exists>sm t. summarize var series df = Inr (Some sm)
        \<and> mset t = mset (county_values (rows df) var)
        \<and> sorted (map snd t)
        \<and> sm_bottom3 sm = map (\<lambda>(c, v). (c, Fl v)) (take 3 t)
        \<and> sm_top3 sm = map (\<lambda>(c, v). (c, Fl v)) (drop (length t - 3) t)
        \<and> (length t < 6 \<longrightarrow> set (sm_bottom3 sm) \<inter> set (sm_top3 sm) \<noteq> {}))"
proof (intro impI)
  assume a: "getitem df var = Inr series \<and> dropna series \<noteq> []"
  define rs where "rs = rows df"
  have col: "var \<in> set (columns df)"
    using a by (auto simp: getitem_def split: if_splits)
  have ser: "series = zip [0..<length rs] (map (\<lambda>r. cells r var) rs)"
    using a col by (simp add: getitem_def rs_def)
  define s where "s = dropna series"
  have ne: "s \<noteq> []" using a by (simp add: s_def)
  define srt where "srt = sort_values s"
  define f where "f = (\<lambda>(i, v). (county (rs ! i), v :: real))"
  define t where "t = map f srt"
  define sorted_df where "sorted_df = map (\<lambda>(c, v). (c, Fl v)) t"
  have mem: "i < length rs \<and> cells (rs ! i) var = Fl v" if "(i, v) \<in> set s" for i v
  proof -
    from that have "(i, Fl v) \<in> set series" unfolding s_def by (rule dropna_member)
    then show ?thesis unfolding ser by (rule series_entry)
  qed
  have set_srt: "set srt = set s" by (simp add: srt_def sort_values_def)
  have labels: "list_all (\<lambda>i. i < length (rows df)) (map fst srt)"
    using mem set_srt by (auto simp: list_all_iff rs_def)
  have rows_eq: "map (\<lambda>i. (county (rows df ! i), cells (rows df ! i) var)) (map fst srt)
                 = sorted_df"
    unfolding sorted_df_def t_def
    using mem set_srt by (auto simp: f_def rs_def)
  have l: "loc df (map fst srt) var = Inr sorted_df"
    using col labels rows_eq by (simp add: loc_def)
  define sm where
    "sm = \<lparr>sm_label = var_label var, sm_med = median s, sm_q1 = quantile s 0.25,
           sm_q3 = quantile s 0.75, sm_vmin = smin s, sm_vmax = smax s,
           sm_ratio = max_min_ratio (smin s) (smax s),
           sm_bottom3 = take 3 sorted_df, sm_top3 = tail 3 sorted_df\<rparr>"
  have sum: "summarize var series df = Inr (Some sm)"
    unfolding summarize_def Let_def s_def[symmetric] srt_def[symmetric] l sm_def
    using ne by simp
  have "map f s = county_values rs var"
    unfolding s_def ser f_def by (rule dropna_rows) simp_all
  then have m: "mset t = mset (county_values (rows df) var)"
    by (metis t_def srt_def sort_values_def mset_map mset_sort rs_def)
  have "map snd t = map snd srt" by (simp add: t_def f_def case_prod_unfold)
  then have so: "sorted (map snd t)" by (simp add: srt_def sort_values_def)
  have b: "sm_bottom3 sm = map (\<lambda>(c, v). (c, Fl v)) (take 3 t)"
    by (simp add: sm_def sorted_df_def take_map)
  have tp: "sm_top3 sm = map (\<lambda>(c, v). (c, Fl v)) (drop (length t - 3) t)"
    by (simp add: sm_def sorted_df_def tail_map)
  have tne: "t \<noteq> []" using ne set_srt by (auto simp: t_def)
  have ov: "length t < 6 \<longrightarrow> set (sm_bottom3 sm) \<inter> set (sm_top3 sm) \<noteq> {}"
  proof
    assume "length t < 6"
    then have "set (take 3 t) \<inter> set (drop (length t - 3) t) \<noteq> {}"
      using tne take_drop_overlap by blast
    then obtain x where "x \<in> set (take 3 t)" and "x \<in> set (drop (length t - 3) t)" by blast
    then have "(\<lambda>(c, v). (c, Fl v)) x \<in> set (sm_bottom3 sm)"
      and "(\<lambda>(c, v). (c, Fl v)) x \<in> set (sm_top3 sm)"
      unfolding b tp by simp_all
    then show "set (sm_bottom3 sm) \<inter> set (sm_top3 sm) \<noteq> {}" by blast
  qed
  show "\<exists>sm t. summarize var series df = Inr (Some sm)
        \<and> mset t = mset (county_values (rows df) var)
        \<and> sorted (map snd t)
        \<and> sm_bottom3 sm = map (\<lambda>(c, v). (c, Fl v)) (take 3 t)
        \<and> sm_top3 sm = map (\<lambda>(c, v). (c, Fl v)) (drop (length t - 3) t)
        \<and> (length t < 6 \<longrightarrow> set (sm_bottom3 sm) \<inter> set (sm_top3 sm) \<noteq> {})"
    using sum m so b tp ov by blast
qed


theorem top_bottom_three_witness:
  "getitem (metric_table [(''A'', Fl 3), (''B'', NaN), (''C'', Fl 1), (''D'', Fl 2), (''E'', Fl 5)]) ''value''
     = Inr [(0, Fl 3), (1, NaN), (2, Fl 1), (3, Fl 2), (4, Fl 5)]
   \<and> dropna [(0, Fl 3), (1, NaN), (2, Fl 1), (3, Fl 2), (4, Fl 5)] \<noteq> []
   \<and> summarize ''value'' [(0, Fl 3), (1, NaN), (2, Fl 1), (3, Fl 2), (4, Fl 5)]
        (metric_table [(''A'', Fl 3), (''B'', NaN), (''C'', Fl 1), (''D'', Fl 2), (''E'', Fl 5)])
       = Inr (Some \<lparr>sm_label = ''value'', sm_med = Fl 2.5, sm_q1 = Fl 1.75, sm_q3 = Fl 3.5,
               sm_vmin = Fl 1, sm_vmax = Fl 5, sm_ratio = Some (Fl 5),
               sm_bottom3 = [(''C'', Fl 1), (''D'', Fl 2), (''A'', Fl 3)],
               sm_top3 = [(''D'', Fl 2), (''A'', Fl 3), (''E'', Fl 5)]\<rparr>)
   \<and> (\<exists>t. mset t = mset [(''A'', 3), (''C'', 1), (''D'', 2), (''E'', 5)]
        \<and> sorted (map snd t)
        \<and> [(''C'', Fl 1), (''D'', Fl 2), (''A'', Fl 3)] = map (\<lambda>(c, v). (c, Fl v)) (take 3 t)
        \<and> [(''D'', Fl 2), (''A'', Fl 3), (''E'', Fl 5)]
            = map (\<lambda>(c, v). (c, Fl v)) (drop (length t - 3) t)
        \<and> length t < 6
        \<and> set [(''C'', Fl 1), (''D'', Fl 2), (''A'', Fl 3)]
            \<inter> set [(''D'', Fl 2), (''A'', Fl 3), (''E'', Fl 5 :: float)] \<noteq> {})"
proof -
  have g: "getitem (metric_table [(''A'', Fl 3), (''B'', NaN), (''C'', Fl 1), (''D'', Fl 2), (''E'', Fl 5)]) ''value''
     = Inr [(0, Fl 3), (1, NaN), (2, Fl 1), (3, Fl 2), (4, Fl 5)]"
    by (simp add: getitem_def metric_table_def upt_conv_Cons)
  have d: "dropna [(0, Fl 3), (1, NaN), (2, Fl 1), (3, Fl 2), (4, Fl 5)] \<noteq> []"
    by simp
  have e: "summarize ''value'' [(0, Fl 3), (1, NaN), (2, Fl 1), (3, Fl 2), (4, Fl 5)]
        (metric_table [(''A'', Fl 3), (''B'', NaN), (''C'', Fl 1), (''D'', Fl 2), (''E'', Fl 5)])
       = Inr (Some \<lparr>sm_label = ''value'', sm_med = Fl 2.5, sm_q1 = Fl 1.75, sm_q3 = Fl 3.5,
               sm_vmin = Fl 1, sm_vmax = Fl 5, sm_ratio = Some (Fl 5),
               sm_bottom3 = [(''C'', Fl 1), (''D'', Fl 2), (''A'', Fl 3)],
               sm_top3 = [(''D'', Fl 2), (''A'', Fl 3), (''E'', Fl 5)]\<rparr>)"
    by (simp add: summarize_def metric_table_def loc_def sort_values_def var_label_def
        VAR_LABELS_def median_def quantile_def lerp_at_def smin_def smax_def
        max_min_ratio_def tail_def Let_def)
  have c: "county_values (rows (metric_table [(''A'', Fl 3), (''B'', NaN), (''C'', Fl 1), (''D'', Fl 2), (''E'', Fl 5)])) ''value''
           = [(''A'', 3), (''C'', 1), (''D'', 2), (''E'', 5)]"
    by (simp add: metric_table_def)
  from top_bottom_three
      [of "metric_table [(''A'', Fl 3), (''B'', NaN), (''C'', Fl 1), (''D'', Fl 2), (''E'', Fl 5)]" "''value''"
          "[(0, Fl 3), (1, NaN), (2, Fl 1), (3, Fl 2), (4, Fl 5)]"] g d
  obtain sm t where
    s: "summarize ''value'' [(0, Fl 3), (1, NaN), (2, Fl 1), (3, Fl 2), (4, Fl 5)]
          (metric_table [(''A'', Fl 3), (''B'', NaN), (''C'', Fl 1), (''D'', Fl 2), (''E'', Fl 5)]) = Inr (Some sm)"
    and m: "mset t = mset (county_values
              (rows (metric_table [(''A'', Fl 3), (''B'', NaN), (''C'', Fl 1), (''D'', Fl 2), (''E'', Fl 5)])) ''value'')"
    and so: "sorted (map snd t)"
    and b: "sm_bottom3 sm = map (\<lambda>(c, v). (c, Fl v)) (take 3 t)"
    and tp: "sm_top3 sm = map (\<lambda>(c, v). (c, Fl v)) (drop (length t - 3) t)"
    and ov: "length t < 6 \<longrightarrow> set (sm_bottom3 sm) \<inter> set (sm_top3 sm) \<noteq> {}"
    by blast
  have sm: "sm = \<lparr>sm_label = ''value'', sm_med = Fl 2.5, sm_q1 = Fl 1.75, sm_q3 = Fl 3.5,
               sm_vmin = Fl 1, sm_vmax = Fl 5, sm_ratio = Some (Fl 5),
               sm_bottom3 = [(''C'', Fl 1), (''D'', Fl 2), (''A'', Fl 3)],
               sm_top3 = [(''D'', Fl 2), (''A'', Fl 3), (''E'', Fl 5)]\<rparr>"
    using s e by simp
  have len: "length t < 6"
    using mset_eq_length[OF m] by (simp add: c)
  have x: "\<exists>t. mset t = mset [(''A'', 3), (''C'', 1), (''D'', 2), (''E'', 5)]
        \<and> sorted (map snd t)
        \<and> [(''C'', Fl 1), (''D'', Fl 2), (''A'', Fl 3)] = map (\<lambda>(c, v). (c, Fl v)) (take 3 t)
        \<and> [(''D'', Fl 2), (''A'', Fl 3), (''E'', Fl 5)]
            = map (\<lambda>(c, v). (c, Fl v)) (drop (length t - 3) t)
        \<and> length t < 6
        \<and> set [(''C'', Fl 1), (''D'', Fl 2), (''A'', Fl 3)]
            \<inter> set [(''D'', Fl 2), (''A'', Fl 3), (''E'', Fl 5 :: float)] \<noteq> {}"
    using m so b tp ov len unfolding c sm by (intro exI[of _ t]) simp
  show ?thesis using g d e x by blast
qed

end
